theory Spec2Isabelle
  imports Complex_Main
begin

text \<open>
  The report utilities of the Assignment Agent front end, embedded from
  \<open>utils/pptProcessors.jsx\<close> (splitting a grading text into Sections and
  extracting score records), \<open>utils/excelExport.jsx\<close> (the statistics of the
  spreadsheet), \<open>utils/fileDownloaders.jsx\<close> (the plain-text, document and
  print exports) and \<open>utils/reportBuilders\<close> (the markup of a report). The
  definitions come first, each named after the function or variable of the
  source it stands for; the properties follow.
\<close>

section \<open>JavaScript values\<close>

text \<open>
  Numbers are IEEE 754 doubles in the source. A finite double is kept as the
  rational it denotes, and every operation that the source performs in double
  arithmetic rounds its exact result to the nearest double (\<open>toDouble\<close>
  below). Zero has no sign in this model: no function of the source tells the
  two zeros apart.
\<close>

datatype jsnum = Fin rat | PInf | NInf | NaN

text \<open>
  The values a field of a decoded JSON object, or an argument of an exported
  function, can hold. \<open>Object\<close> stands for any value whose type is neither
  of the others; where it is converted to a number or a string it is taken
  for a plain object.
\<close>

datatype jsvalue = Undefined | Null | Boolean bool | Number jsnum | String string | Object

section \<open>Strings\<close>

text \<open>
  A string is a list of code units below 256. On that range the white space of
  \<open>String.prototype.trim\<close> and of the regular-expression class \<open>\s\<close> is
  TAB, LF, VT, FF, CR, SPACE and NBSP; the line terminators are LF and CR.
\<close>

abbreviation NL :: char where
  "NL \<equiv> CHR 0x0A"

definition isSpace :: "char \<Rightarrow> bool" where
  "isSpace c = (c \<in> set [CHR 0x09, NL, CHR 0x0B, CHR 0x0C, CHR 0x0D, CHR 0x20, CHR 0xA0])"

definition isLineTerminator :: "char \<Rightarrow> bool" where
  "isLineTerminator c = (c = NL \<or> c = CHR 0x0D)"

definition isDigit :: "char \<Rightarrow> bool" where
  "isDigit c = (c \<in> set ''0123456789'')"

definition notNL :: "char \<Rightarrow> bool" where
  "notNL c = (c \<noteq> NL)"

definition trim :: "string \<Rightarrow> string" where
  "trim s = rev (dropWhile isSpace (rev (dropWhile isSpace s)))"

fun startsWith :: "string \<Rightarrow> string \<Rightarrow> bool" where
  "startsWith s [] = True"
| "startsWith [] (p # ps) = False"
| "startsWith (c # cs) (p # ps) = (c = p \<and> startsWith cs ps)"

text \<open>\<open>String.prototype.indexOf\<close>: the first position of the pattern, or -1.\<close>

fun indexOf :: "string \<Rightarrow> string \<Rightarrow> int" where
  "indexOf [] p = (if p = [] then 0 else -1)"
| "indexOf (c # cs) p =
     (if startsWith (c # cs) p then 0
      else (let i = indexOf cs p in if i = -1 then -1 else i + 1))"

definition includesStr :: "string \<Rightarrow> string \<Rightarrow> bool" where
  "includesStr s p = (indexOf s p \<noteq> -1)"

fun join :: "string \<Rightarrow> string list \<Rightarrow> string" where
  "join sep [] = []"
| "join sep [x] = x"
| "join sep (x # y # ys) = x @ sep @ join sep (y # ys)"

text \<open>
  \<open>text.split(/\n\n+/)\<close>: the pieces between the maximal runs of two or
  more line feeds. The first argument collects the current piece, reversed.
\<close>

function splitBlankLines :: "string \<Rightarrow> string \<Rightarrow> string list" where
  "splitBlankLines acc [] = [rev acc]"
| "splitBlankLines acc (c # cs) =
     (if c = NL \<and> startsWith cs [NL]
      then rev acc # splitBlankLines [] (dropWhile (\<lambda>x. x = NL) cs)
      else splitBlankLines (c # acc) cs)"
  by pat_completeness auto
termination
  by (relation "measure (\<lambda>(acc, s). length s)")
     (auto simp: length_dropWhile_le less_Suc_eq_le)

section \<open>Regular expressions of the PPT processors\<close>

text \<open>
  What follows a marker in \<open>File:\s+([^\n]+)\<close> (at least one white-space
  character) and in \<open>File:\s*([^\n]+)\<close> (none needed): the white-space run is
  taken greedily and given back one character at a time until a character
  other than a line feed follows it; the capture is the rest of that line.
\<close>

definition spacesThenLine :: "nat \<Rightarrow> string \<Rightarrow> (nat \<times> string) option" where
  "spacesThenLine least rest =
     (let w = length (takeWhile isSpace rest) in
      case filter (\<lambda>k. case drop k rest of [] \<Rightarrow> False | c # _ \<Rightarrow> c \<noteq> NL)
                  (rev [least ..< Suc w]) of
        [] \<Rightarrow> None
      | k # _ \<Rightarrow> Some (k, takeWhile notNL (drop k rest)))"

text \<open>
  \<open>/^File:\s+([^\n]+)/m\<close> and \<open>/^File:\s*([^\n]+)/m\<close>: the capture of the
  leftmost match. The flag tells whether the position is the start of the
  input or follows a line terminator.
\<close>

fun fileMatch :: "nat \<Rightarrow> bool \<Rightarrow> string \<Rightarrow> string option" where
  "fileMatch least atStart [] = None"
| "fileMatch least atStart (c # cs) =
     (case (if atStart \<and> startsWith (c # cs) ''File:''
            then spacesThenLine least (drop 5 (c # cs)) else None) of
        Some (k, cap) \<Rightarrow> Some cap
      | None \<Rightarrow> fileMatch least (isLineTerminator c) cs)"

section \<open>splitPPTFileSections\<close>

record split_state =
  fileSections :: "string list"
  currentFile :: string
  currentFilename :: string

text \<open>\<open>Math.min\<close> of the two marker positions, \<open>None\<close> standing for Infinity.\<close>

definition firstEvalIndex :: "string \<Rightarrow> int option" where
  "firstEvalIndex trimmed =
     (let contentEvalIndex = indexOf trimmed ''CONTENT EVALUATION'';
          designEvalIndex = indexOf trimmed ''VISUAL DESIGN EVALUATION''
      in if contentEvalIndex = -1 then (if designEvalIndex = -1 then None else Some designEvalIndex)
         else if designEvalIndex = -1 then Some contentEvalIndex
         else Some (min contentEvalIndex designEvalIndex))"

definition extractedFilename :: "string \<Rightarrow> string option" where
  "extractedFilename trimmed = map_option trim (fileMatch 1 True trimmed)"

definition isMainFileHeader :: "string \<Rightarrow> bool" where
  "isMainFileHeader trimmed =
     (let startsWithFile = (fileMatch 1 True trimmed \<noteq> None);
          hasTotalSlides = includesStr trimmed (NL # ''Total Slides:'');
          fileIndex = indexOf trimmed ''File:'';
          totalSlidesIndex = indexOf trimmed ''Total Slides:''
      in startsWithFile \<and> hasTotalSlides \<and> fileIndex < totalSlidesIndex \<and>
         (case firstEvalIndex trimmed of None \<Rightarrow> True | Some e \<Rightarrow> totalSlidesIndex < e))"

text \<open>
  The four arms of the loop body, in the order of the source. (The source
  also computes \<open>hasEvalMarkers\<close>, which it never reads.)
\<close>

datatype arm = NewFile | SameFile | FirstPart | Continuation

definition truthy :: "string option \<Rightarrow> bool" where
  "truthy v = (case v of None \<Rightarrow> False | Some s \<Rightarrow> s \<noteq> [])"

definition whichArm :: "split_state \<Rightarrow> string \<Rightarrow> arm" where
  "whichArm st trimmed =
     (let extracted = extractedFilename trimmed;
          belongsToCurrentFile =
            (currentFilename st \<noteq> [] \<and> truthy extracted \<and> extracted = Some (currentFilename st))
      in if isMainFileHeader trimmed \<and>
            (currentFilename st = [] \<or> extracted \<noteq> Some (currentFilename st)) then NewFile
         else if belongsToCurrentFile \<or> (\<not> truthy extracted \<and> currentFile st \<noteq> []) then SameFile
         else if currentFile st = [] then FirstPart
         else Continuation)"

definition orEmpty :: "string option \<Rightarrow> string" where
  "orEmpty v = (case v of None \<Rightarrow> [] | Some s \<Rightarrow> s)"

definition flush :: "split_state \<Rightarrow> string list" where
  "flush st = (if currentFile st \<noteq> [] then fileSections st @ [trim (currentFile st)]
               else fileSections st)"

definition processPart :: "split_state \<Rightarrow> string \<Rightarrow> split_state" where
  "processPart st part =
     (let trimmed = trim part in
      case whichArm st trimmed of
        NewFile \<Rightarrow> \<lparr>fileSections = flush st, currentFile = trimmed,
                     currentFilename = orEmpty (extractedFilename trimmed)\<rparr>
      | SameFile \<Rightarrow> st\<lparr>currentFile := currentFile st @ [NL, NL] @ trimmed\<rparr>
      | FirstPart \<Rightarrow> st\<lparr>currentFile := trimmed,
                         currentFilename := orEmpty (extractedFilename trimmed)\<rparr>
      | Continuation \<Rightarrow> st\<lparr>currentFile := currentFile st @ [NL, NL] @ trimmed\<rparr>)"

definition parts :: "string \<Rightarrow> string list" where
  "parts text = filter (\<lambda>p. trim p \<noteq> []) (splitBlankLines [] text)"

definition initial :: split_state where
  "initial = \<lparr>fileSections = [], currentFile = [], currentFilename = []\<rparr>"

definition splitText :: "string \<Rightarrow> string list" where
  "splitText text =
     (let st = foldl processPart initial (parts text);
          sections = flush st
      in if sections \<noteq> [] then sections else [text])"

text \<open>The exported function: anything but a non-empty string gives \<open>[]\<close>.\<close>

fun splitPPTFileSections :: "jsvalue \<Rightarrow> string list" where
  "splitPPTFileSections (String text) = (if text = [] then [] else splitText text)"
| "splitPPTFileSections v = []"

section \<open>Rounding to a double\<close>

text \<open>The number of binary digits of a natural number.\<close>

fun bitLength :: "nat \<Rightarrow> nat" where
  "bitLength n = (if n = 0 then 0 else Suc (bitLength (n div 2)))"

declare bitLength.simps [simp del]

text \<open>Two to an integer power.\<close>

definition pow2 :: "int \<Rightarrow> rat" where
  "pow2 e = (if 0 \<le> e then 2 ^ nat e else 1 / 2 ^ nat (- e))"

text \<open>For \<open>a > 0\<close>, the integer \<open>e\<close> with \<open>2^e \<le> a < 2^(e+1)\<close>.\<close>

definition binaryExponent :: "rat \<Rightarrow> int" where
  "binaryExponent a =
     (if 1 \<le> a then int (bitLength (nat \<lfloor>a\<rfloor>)) - 1
      else - int (bitLength (nat (\<lceil>1 / a\<rceil> - 1))))"

text \<open>The nearest integer, a tie going to the even one.\<close>

definition roundHalfEven :: "rat \<Rightarrow> int" where
  "roundHalfEven y =
     (let f = \<lfloor>y\<rfloor>; d = y - of_int f
      in if d < 1 / 2 then f
         else if 1 / 2 < d then f + 1
         else if even f then f else f + 1)"

text \<open>
  The double nearest to a rational, a tie going to the even significand:
  53 significant bits, the least exponent -1022 (below it the spacing stays
  \<open>2^-1074\<close>), and Infinity from \<open>2^1024\<close> on.
\<close>

definition toDouble :: "rat \<Rightarrow> jsnum" where
  "toDouble q =
     (if q = 0 then Fin 0
      else (let a = \<bar>q\<bar>;
                e = max (binaryExponent a) (- 1022);
                ulp = pow2 (e - 52);
                r = of_int (roundHalfEven (a / ulp)) * ulp
            in if pow2 1024 \<le> r then (if q < 0 then NInf else PInf)
               else Fin (if q < 0 then - r else r)))"

section \<open>Arithmetic on numbers\<close>

fun js_add :: "jsnum \<Rightarrow> jsnum \<Rightarrow> jsnum" where
  "js_add (Fin a) (Fin b) = toDouble (a + b)"
| "js_add NaN y = NaN"
| "js_add x NaN = NaN"
| "js_add PInf NInf = NaN"
| "js_add NInf PInf = NaN"
| "js_add PInf y = PInf"
| "js_add x PInf = PInf"
| "js_add NInf y = NInf"
| "js_add x NInf = NInf"

fun js_neg :: "jsnum \<Rightarrow> jsnum" where
  "js_neg (Fin a) = Fin (- a)"
| "js_neg PInf = NInf"
| "js_neg NInf = PInf"
| "js_neg NaN = NaN"

definition js_sub :: "jsnum \<Rightarrow> jsnum \<Rightarrow> jsnum" where
  "js_sub x y = js_add x (js_neg y)"

fun js_abs :: "jsnum \<Rightarrow> jsnum" where
  "js_abs (Fin a) = Fin \<bar>a\<bar>"
| "js_abs PInf = PInf"
| "js_abs NInf = PInf"
| "js_abs NaN = NaN"

text \<open>\<open>x < y\<close>; a comparison with NaN is false.\<close>

fun js_less :: "jsnum \<Rightarrow> jsnum \<Rightarrow> bool" where
  "js_less NaN y = False"
| "js_less x NaN = False"
| "js_less (Fin a) (Fin b) = (a < b)"
| "js_less x NInf = False"
| "js_less NInf y = True"
| "js_less PInf y = False"
| "js_less x PInf = True"

text \<open>\<open>x >= y\<close>; a comparison with NaN is false.\<close>

fun js_ge :: "jsnum \<Rightarrow> jsnum \<Rightarrow> bool" where
  "js_ge NaN y = False"
| "js_ge x NaN = False"
| "js_ge x y = (\<not> js_less x y)"

text \<open>
  \<open>x / n\<close> for an array length \<open>n\<close> (an integer below \<open>2^32\<close>, hence a
  double). The source divides only after testing \<open>n > 0\<close>.
\<close>

fun js_div_length :: "jsnum \<Rightarrow> nat \<Rightarrow> jsnum" where
  "js_div_length (Fin a) n =
     (if n = 0 then (if a = 0 then NaN else if 0 < a then PInf else NInf)
      else toDouble (a / of_nat n))"
| "js_div_length x n = x"

fun isNaN :: "jsnum \<Rightarrow> bool" where
  "isNaN NaN = True"
| "isNaN x = False"

fun isFinite :: "jsnum \<Rightarrow> bool" where
  "isFinite (Fin a) = True"
| "isFinite x = False"

text \<open>
  \<open>Math.max\<close> and \<open>Math.min\<close> of two arguments, then of a spread array
  (an engine's limit on the number of arguments is not modelled).
\<close>

fun js_max :: "jsnum \<Rightarrow> jsnum \<Rightarrow> jsnum" where
  "js_max NaN y = NaN"
| "js_max x NaN = NaN"
| "js_max x y = (if js_less x y then y else x)"

fun js_min :: "jsnum \<Rightarrow> jsnum \<Rightarrow> jsnum" where
  "js_min NaN y = NaN"
| "js_min x NaN = NaN"
| "js_min x y = (if js_less y x then y else x)"

definition Math_max :: "jsnum list \<Rightarrow> jsnum" where
  "Math_max xs = foldl js_max NInf xs"

definition Math_min :: "jsnum list \<Rightarrow> jsnum" where
  "Math_min xs = foldl js_min PInf xs"

text \<open>\<open>xs.reduce((a, b) => a + b, 0)\<close>\<close>

definition sumReduce :: "jsnum list \<Rightarrow> jsnum" where
  "sumReduce xs = foldl js_add (Fin 0) xs"

section \<open>Numbers and text\<close>

definition digitChar :: "nat \<Rightarrow> char" where
  "digitChar d = char_of (48 + d)"

fun digitsOf :: "nat \<Rightarrow> string" where
  "digitsOf n = (if n < 10 then [digitChar n] else digitsOf (n div 10) @ [digitChar (n mod 10)])"

declare digitsOf.simps [simp del]

text \<open>The value of a digit, and of a string of digits in a radix.\<close>

definition charDigit :: "char \<Rightarrow> nat" where
  "charDigit c =
     (if isDigit c then of_char c - 48
      else if c \<in> set ''abcdef'' then of_char c - 87
      else if c \<in> set ''ABCDEF'' then of_char c - 55
      else 0)"

definition digitsValue :: "nat \<Rightarrow> string \<Rightarrow> nat" where
  "digitsValue radix ds = foldl (\<lambda>n c. radix * n + charDigit c) 0 ds"

text \<open>
  \<open>parseInt\<close> on a string of decimal digits, as the score patterns capture:
  the double nearest to the integer written, Infinity beyond the range. (Past
  20 significant digits the standard lets an implementation zero the later
  digits before it rounds; the engines in use round the integer itself.)
\<close>

definition parseInt :: "string \<Rightarrow> jsnum" where
  "parseInt ds = toDouble (of_nat (digitsValue 10 ds))"

text \<open>
  \<open>x.toFixed(2)\<close>. From \<open>10^21\<close> on the source's number-to-string conversion
  takes over, whose digits depend on the binary representation: it is the
  parameter \<open>nts\<close> of every function that prints a number.
\<close>

definition toFixed2 :: "(rat \<Rightarrow> string) \<Rightarrow> jsnum \<Rightarrow> string" where
  "toFixed2 nts x =
     (case x of
        NaN \<Rightarrow> ''NaN''
      | PInf \<Rightarrow> ''Infinity''
      | NInf \<Rightarrow> ''-Infinity''
      | Fin q \<Rightarrow>
          (let s = (if q < 0 then ''-'' else []); a = \<bar>q\<bar> in
           if 10 ^ 21 \<le> a then s @ nts a
           else (let n = nat \<lfloor>a * 100 + 1 / 2\<rfloor>;
                     m = digitsOf n;
                     m = (if length m \<le> 2 then replicate (3 - length m) (CHR ''0'') @ m else m);
                     k = length m - 2
                 in s @ take k m @ ''.'' @ drop k m)))"

section \<open>Score records\<close>

text \<open>
  A record as the grading service delivers it. A field that is absent, null
  or not an array reads as \<open>None\<close> (strings) or as the empty list (details):
  every reader in the source tests the field before using it.
\<close>

record detail =
  question :: "string option"
  student_answer :: "string option"
  correct_answer :: "string option"
  is_correct :: jsvalue
  feedback :: "string option"

record student =
  name :: "string option"
  score_percent :: jsvalue
  reasoning :: "string option"
  details :: "detail list"

section \<open>extractPPTScores\<close>

text \<open>
  \<open>/<label>\s*(\d+)\/100/\<close> tried at the head of the input: the label, the
  white-space run, the digit run, then \<open>/100\<close>.
\<close>

definition scoreAt :: "string \<Rightarrow> string \<Rightarrow> string option" where
  "scoreAt label s =
     (if startsWith s label
      then (let r = dropWhile isSpace (drop (length label) s);
                ds = takeWhile isDigit r
            in if ds \<noteq> [] \<and> startsWith (dropWhile isDigit r) ''/100'' then Some ds else None)
      else None)"

text \<open>The capture of the leftmost match.\<close>

fun scoreMatch :: "string \<Rightarrow> string \<Rightarrow> string option" where
  "scoreMatch label [] = scoreAt label []"
| "scoreMatch label (c # cs) =
     (case scoreAt label (c # cs) of Some ds \<Rightarrow> Some ds | None \<Rightarrow> scoreMatch label cs)"

text \<open>
  \<open>(?:\n(?!\n|Score|File:)[^\n]+)*\<close>: the continuation lines taken after the
  first line of a feedback.
\<close>

function continuationLines :: "string \<Rightarrow> string" where
  "continuationLines [] = []"
| "continuationLines (c # cs) =
     (if c = NL \<and> \<not> (startsWith cs [NL] \<or> startsWith cs ''Score'' \<or> startsWith cs ''File:'')
         \<and> takeWhile notNL cs \<noteq> []
      then c # takeWhile notNL cs @ continuationLines (dropWhile notNL cs)
      else [])"
  by pat_completeness auto
termination
  by (relation "measure length") (auto simp: length_dropWhile_le less_Suc_eq_le)

text \<open>
  \<open>/Feedback:\s*([^\n]+(?:\n(?!\n|Score|File:)[^\n]+)*)/\<close> tried at the head
  of the input: the whole matched text.
\<close>

definition feedbackAt :: "string \<Rightarrow> string option" where
  "feedbackAt s =
     (if startsWith s ''Feedback:''
      then (case spacesThenLine 0 (drop 9 s) of
              None \<Rightarrow> None
            | Some (k, line) \<Rightarrow>
                Some (take (9 + k) s @ line
                      @ continuationLines (drop (9 + k + length line) s)))
      else None)"

text \<open>All matches of the pattern with the flag \<open>g\<close>, left to right.\<close>

function feedbackMatches :: "string \<Rightarrow> string list" where
  "feedbackMatches [] = []"
| "feedbackMatches (c # cs) =
     (case feedbackAt (c # cs) of
        Some m \<Rightarrow> m # feedbackMatches (drop (length m - 1) cs)
      | None \<Rightarrow> feedbackMatches cs)"
  by pat_completeness auto
termination
  by (relation "measure length") auto

definition sectionFilename :: "string \<Rightarrow> string" where
  "sectionFilename section =
     (case fileMatch 0 True section of Some cap \<Rightarrow> trim cap | None \<Rightarrow> ''Unknown'')"

text \<open>The variable \<open>score\<close> of the loop body: \<open>None\<close> is \<open>null\<close>.\<close>

definition sectionScore :: "string \<Rightarrow> jsnum option" where
  "sectionScore section =
     (let contentScoreMatch = scoreMatch ''Content Quality Score:'' section;
          structureScoreMatch = scoreMatch ''Structure Score:'' section;
          alignmentScoreMatch = scoreMatch ''Alignment Score:'' section
      in if contentScoreMatch \<noteq> None \<or> structureScoreMatch \<noteq> None \<or> alignmentScoreMatch \<noteq> None
         then (let scores = List.map_filter (map_option parseInt)
                              [contentScoreMatch, structureScoreMatch, alignmentScoreMatch]
               in if 0 < length scores
                  then Some (js_div_length (sumReduce scores) (length scores))
                  else None)
         else None)"

text \<open>The variable \<open>reasoning\<close> of the loop body.\<close>

definition sectionReasoning :: "string \<Rightarrow> string" where
  "sectionReasoning section =
     (case feedbackMatches section of
        [] \<Rightarrow> []
      | ms \<Rightarrow> join ''; '' (map (\<lambda>m. dropWhile isSpace (drop 9 m)) ms))"

text \<open>One turn of the loop: the record pushed for a section, if any.\<close>

definition sectionRecord :: "string \<Rightarrow> student option" where
  "sectionRecord section =
     (let filename = sectionFilename section;
          score = sectionScore section;
          reasoning = sectionReasoning section
      in if filename \<noteq> [] \<and> (score \<noteq> None \<or> reasoning \<noteq> [])
         then Some \<lparr>name = Some filename,
                    score_percent = (case score of Some x \<Rightarrow> Number x | None \<Rightarrow> String ''-''),
                    reasoning = Some (if reasoning \<noteq> [] then reasoning else ''Evaluation completed''),
                    details = []\<rparr>
         else None)"

fun extractPPTScores :: "jsvalue \<Rightarrow> student list" where
  "extractPPTScores (String result) =
     (if result = [] then []
      else List.map_filter sectionRecord (splitPPTFileSections (String result)))"
| "extractPPTScores v = []"

section \<open>Conversions between values\<close>

text \<open>\<open>typeof v === 'number'\<close> and \<open>typeof v === 'string'\<close>\<close>

fun isNumber :: "jsvalue \<Rightarrow> bool" where
  "isNumber (Number x) = True"
| "isNumber v = False"

fun isString :: "jsvalue \<Rightarrow> bool" where
  "isString (String s) = True"
| "isString v = False"

text \<open>The literals \<open>0x..\<close>, \<open>0o..\<close> and \<open>0b..\<close>, which take no sign.\<close>

definition nonDecimalLiteral :: "string \<Rightarrow> nat option" where
  "nonDecimalLiteral t =
     (case t of
        z # p # ds \<Rightarrow>
          (if z = CHR ''0'' \<and> ds \<noteq> [] then
             (if p \<in> set ''xX'' \<and> list_all (\<lambda>c. c \<in> set ''0123456789abcdefABCDEF'') ds
                then Some (digitsValue 16 ds)
              else if p \<in> set ''oO'' \<and> list_all (\<lambda>c. c \<in> set ''01234567'') ds
                then Some (digitsValue 8 ds)
              else if p \<in> set ''bB'' \<and> list_all (\<lambda>c. c \<in> set ''01'') ds
                then Some (digitsValue 2 ds)
              else None)
           else None)
      | _ \<Rightarrow> None)"

text \<open>The exponent part of a decimal literal; \<open>Some 0\<close> when there is none.\<close>

definition exponentPart :: "string \<Rightarrow> int option" where
  "exponentPart r =
     (case r of
        [] \<Rightarrow> Some 0
      | e # r' \<Rightarrow>
          (if e \<in> set ''eE'' then
             (let neg = startsWith r' ''-'';
                  ds = (if startsWith r' ''+'' \<or> startsWith r' ''-'' then tl r' else r')
              in if ds \<noteq> [] \<and> list_all isDigit ds
                 then Some ((if neg then -1 else 1) * int (digitsValue 10 ds))
                 else None)
           else None))"

definition unsignedDecimal :: "string \<Rightarrow> jsnum" where
  "unsignedDecimal u =
     (if u = ''Infinity'' then PInf
      else (let ip = takeWhile isDigit u;
                r1 = dropWhile isDigit u;
                hasDot = startsWith r1 ''.'';
                fp = (if hasDot then takeWhile isDigit (tl r1) else []);
                r2 = (if hasDot then dropWhile isDigit (tl r1) else r1);
                mantissa = (of_nat (digitsValue 10 ip) :: rat)
                           + of_nat (digitsValue 10 fp) / 10 ^ length fp
            in if ip = [] \<and> fp = [] then NaN
               else (case exponentPart r2 of
                       None \<Rightarrow> NaN
                     | Some e \<Rightarrow>
                         toDouble (if 0 \<le> e then mantissa * 10 ^ nat e
                                   else mantissa / 10 ^ nat (- e)))))"

text \<open>
  The conversion of a string by \<open>Number(...)\<close>: the double nearest to the
  value written.
\<close>

definition stringToNumber :: "string \<Rightarrow> jsnum" where
  "stringToNumber s =
     (let t = trim s in
      if t = [] then Fin 0
      else (case nonDecimalLiteral t of
              Some n \<Rightarrow> toDouble (of_nat n)
            | None \<Rightarrow>
                (if startsWith t ''+'' then unsignedDecimal (tl t)
                 else if startsWith t ''-'' then js_neg (unsignedDecimal (tl t))
                 else unsignedDecimal t)))"

fun toNumber :: "jsvalue \<Rightarrow> jsnum" where
  "toNumber Undefined = NaN"
| "toNumber Null = Fin 0"
| "toNumber (Boolean b) = Fin (if b then 1 else 0)"
| "toNumber (Number x) = x"
| "toNumber (String s) = stringToNumber s"
| "toNumber Object = NaN"

text \<open>A value placed in a template literal.\<close>

fun toStr :: "(rat \<Rightarrow> string) \<Rightarrow> jsvalue \<Rightarrow> string" where
  "toStr nts Undefined = ''undefined''"
| "toStr nts Null = ''null''"
| "toStr nts (Boolean b) = (if b then ''true'' else ''false'')"
| "toStr nts (Number (Fin q)) = nts q"
| "toStr nts (Number PInf) = ''Infinity''"
| "toStr nts (Number NInf) = ''-Infinity''"
| "toStr nts (Number NaN) = ''NaN''"
| "toStr nts (String s) = s"
| "toStr nts Object = ''[object Object]''"

text \<open>\<open>v ?? '-'\<close>\<close>

fun orDash :: "jsvalue \<Rightarrow> jsvalue" where
  "orDash Undefined = String ''-''"
| "orDash Null = String ''-''"
| "orDash v = v"

text \<open>\<open>v ? String(v) : d\<close> for a field that holds a string when present.\<close>

definition orDefault :: "string option \<Rightarrow> string \<Rightarrow> string" where
  "orDefault v d = (case v of None \<Rightarrow> d | Some s \<Rightarrow> if s \<noteq> [] then s else d)"

definition mapIndexed :: "(nat \<Rightarrow> 'a \<Rightarrow> 'b) \<Rightarrow> 'a list \<Rightarrow> 'b list" where
  "mapIndexed f xs = map (\<lambda>(i, x). f i x) (zip [0 ..< length xs] xs)"

text \<open>
  An instance of the number-to-string parameter, for evaluating the builders at
  concrete records: it prints the integer part.
\<close>

definition integerPart :: "rat \<Rightarrow> string" where
  "integerPart q = digitsOf (nat \<lfloor>\<bar>q\<bar>\<rfloor>)"

section \<open>Titles, file names and time stamps\<close>

text \<open>
  \<open>(lastTitle && lastTitle.trim()) || (title && title.trim()) || fallback\<close>;
  a title that is absent reads as the empty string.
\<close>

definition baseTitle :: "string \<Rightarrow> string \<Rightarrow> string \<Rightarrow> string" where
  "baseTitle lastTitle title fallback =
     (if trim lastTitle \<noteq> [] then trim lastTitle
      else if trim title \<noteq> [] then trim title
      else fallback)"

definition isAllowed :: "char \<Rightarrow> bool" where
  "isAllowed c =
     (c \<in> set ''abcdefghijklmnopqrstuvwxyzABCDEFGHIJKLMNOPQRSTUVWXYZ0123456789-_ '')"

text \<open>\<open>.replace(/\s+/g, '_')\<close>\<close>

function underscoreSpaces :: "string \<Rightarrow> string" where
  "underscoreSpaces [] = []"
| "underscoreSpaces (c # cs) =
     (if isSpace c then CHR ''_'' # underscoreSpaces (dropWhile isSpace cs)
      else c # underscoreSpaces cs)"
  by pat_completeness auto
termination
  by (relation "measure length") (auto simp: length_dropWhile_le less_Suc_eq_le)

text \<open>\<open>.replace(/[^a-z0-9-_ ]/gi, '').replace(/\s+/g, '_')\<close>\<close>

definition sanitize :: "string \<Rightarrow> string" where
  "sanitize s = underscoreSpaces (filter isAllowed s)"

record clock =
  getDate :: nat
  getMonth :: nat
  getFullYear :: nat
  getHours :: nat
  getMinutes :: nat

text \<open>\<open>String(n).padStart(2, '0')\<close>\<close>

definition pad :: "nat \<Rightarrow> string" where
  "pad n = (let s = digitsOf n in replicate (2 - length s) (CHR ''0'') @ s)"

definition timeStamp :: "clock \<Rightarrow> string" where
  "timeStamp now =
     pad (getDate now) @ ''-'' @ pad (getMonth now + 1) @ ''-'' @ digitsOf (getFullYear now)
     @ ''_'' @ pad (getHours now) @ ''-'' @ pad (getMinutes now)"

text \<open>What a download hands to the browser.\<close>

record download =
  content :: string
  mediaType :: string
  fileName :: string

section \<open>Plain-text reports\<close>

text \<open>The text of one question, shared by both plain-text builders.\<close>

definition detailText :: "nat \<Rightarrow> detail \<Rightarrow> string" where
  "detailText idx d =
     (let q = orDefault (question d) ''-'';
          sa = orDefault (student_answer d) ''-'';
          ca = orDefault (correct_answer d) ''-'';
          res = (if is_correct d = Boolean True then ''Correct'' else ''Incorrect'');
          fb = orDefault (feedback d) []
      in join [NL] (filter (\<lambda>l. l \<noteq> [])
           [''Q'' @ digitsOf (idx + 1) @ '': '' @ q,
            ''Answer: '' @ sa,
            ''Correct answer: '' @ ca,
            ''Evaluation: '' @ res,
            (if fb \<noteq> [] then ''Feedback: '' @ fb else [])]))"

definition detailsLines :: "student \<Rightarrow> string list" where
  "detailsLines s =
     (if 0 < length (details s)
      then [[], ''Per-question evaluation:''] @ mapIndexed detailText (details s)
      else [])"

text \<open>
  The constants \<open>scNum\<close>, \<open>sc\<close>, \<open>reason\<close> and \<open>needImp\<close> of
  \<open>buildStudentText\<close>; a score that is not a number goes through
  \<open>Number(...)\<close>.
\<close>

definition scNum :: "student \<Rightarrow> jsnum" where
  "scNum s = (case score_percent s of Number x \<Rightarrow> x | v \<Rightarrow> toNumber v)"

definition scText :: "(rat \<Rightarrow> string) \<Rightarrow> student \<Rightarrow> string" where
  "scText nts s = (if isFinite (scNum s) then toFixed2 nts (scNum s)
                   else toStr nts (orDash (score_percent s)))"

definition reason :: "student \<Rightarrow> string" where
  "reason s = orDefault (reasoning s) []"

definition needImp :: "student \<Rightarrow> string" where
  "needImp s = (if isFinite (scNum s) \<and> js_ge (scNum s) (Fin 100) then ''None'' else reason s)"

definition buildStudentText :: "(rat \<Rightarrow> string) \<Rightarrow> student \<Rightarrow> string" where
  "buildStudentText nts s =
     (let nm = orDefault (name s) ''Student'';
          header = [''Student name: '' @ nm,
                    ''Score: '' @ scText nts s,
                    ''Reason: '' @ reason s,
                    ''Need to improve: '' @ needImp s]
      in join [NL] (header @ detailsLines s))"

text \<open>The text of one record in \<open>downloadResult\<close>, which spells the same steps out again.\<close>

definition resultRecordText :: "(rat \<Rightarrow> string) \<Rightarrow> student \<Rightarrow> string" where
  "resultRecordText nts s =
     (let nm = orDefault (name s) ''-'';
          scNum = (case score_percent s of Number x \<Rightarrow> x | v \<Rightarrow> toNumber v);
          sc = (if isFinite scNum then toFixed2 nts scNum else toStr nts (orDash (score_percent s)));
          reason = orDefault (reasoning s) [];
          needImp = (if isFinite scNum \<and> js_ge scNum (Fin 100) then ''None'' else reason);
          header = [''Student name: '' @ nm,
                    ''Score: '' @ sc,
                    ''Reason: '' @ reason,
                    ''Need to improve: '' @ needImp]
      in join [NL] (header @ detailsLines s))"

text \<open>
  \<open>downloadResult\<close>: \<open>None\<close> when it returns without a download. The raw
  result is a string, empty when absent; \<open>summary\<close> tells whether a summary
  object was passed.
\<close>

definition downloadResult ::
  "(rat \<Rightarrow> string) \<Rightarrow> clock \<Rightarrow> string \<Rightarrow> bool \<Rightarrow> student list \<Rightarrow> string \<Rightarrow> string
     \<Rightarrow> download option" where
  "downloadResult nts now result summary scores title lastTitle =
     (let hasStructured = (summary \<or> 0 < length scores) in
      if result = [] \<and> \<not> hasStructured then None
      else (let payload = (if hasStructured
                           then (if 0 < length scores
                                 then join [NL, NL] (map (resultRecordText nts) scores)
                                 else [])
                           else result);
                safeTitle = sanitize (baseTitle lastTitle title ''output'')
            in Some \<lparr>content = payload, mediaType = ''text/plain'',
                     fileName = safeTitle @ ''_'' @ timeStamp now @ ''.txt''\<rparr>))"

section \<open>buildReportHTML\<close>

definition style :: string where
  \<open>style = join [NL]
     [[],
      ''    <style>'',
      ''      body { font-family: Arial, sans-serif; color:#111827; }'',
      ''      h1 { font-size: 22px; margin-bottom: 12px; }'',
      ''      h2 { font-size: 18px; margin: 18px 0 8px; }'',
      ''      .student { border:1px solid #e5e7eb; border-radius:8px; padding:12px; margin:12px 0; }'',
      ''      .meta { display:flex; justify-content:space-between; font-size: 13px; color:#4b5563; margin-bottom:8px; }'',
      ''      .q { background:#f9fafb; border-radius:6px; padding:10px; margin:8px 0; }'',
      ''      .row { margin:2px 0; font-size: 13px; }'',
      ''      .label { font-weight:600; }'',
      ''      .ok { color:#047857; font-weight:600; }'',
      ''      .bad { color:#b91c1c; font-weight:600; }'',
      ''      .reason { white-space: pre-wrap; }'',
      ''    </style>'',
      ''  '']\<close>

definition questionHTML :: "nat \<Rightarrow> detail \<Rightarrow> string" where
  \<open>questionHTML i d =
     (let q = orDefault (question d) ''-'';
          sa = orDefault (student_answer d) ''-'';
          ca = orDefault (correct_answer d) ''-'';
          res = (if is_correct d = Boolean True
                 then ''<span class="ok">Correct</span>''
                 else ''<span class="bad">Incorrect</span>'');
          fb = (if orDefault (feedback d) [] \<noteq> []
                then ''<div class="row"><span class="label">Feedback:</span> ''
                     @ orDefault (feedback d) [] @ ''</div>''
                else [])
      in join [NL]
           [[],
            ''            <div class="q">'',
            ''              <div class="row"><span class="label">Q'' @ digitsOf (i + 1) @ '':</span> '' @ q @ ''</div>'',
            ''              <div class="row"><span class="label">Answer:</span> '' @ sa @ ''</div>'',
            ''              <div class="row"><span class="label">Correct answer:</span> '' @ ca @ ''</div>'',
            ''              <div class="row"><span class="label">Evaluation:</span> '' @ res @ ''</div>'',
            ''              '' @ fb,
            ''            </div>'',
            ''          ''])\<close>

definition studentHTML :: "(rat \<Rightarrow> string) \<Rightarrow> nat \<Rightarrow> student \<Rightarrow> string" where
  \<open>studentHTML nts sIdx s =
     (let nm = orDefault (name s) (''Student '' @ digitsOf (sIdx + 1));
          sc = (case score_percent s of
                  Number x \<Rightarrow> toFixed2 nts x
                | v \<Rightarrow> toStr nts (orDash v));
          reason = orDefault (reasoning s) [];
          needImp = (case score_percent s of
                       Number x \<Rightarrow> (if js_ge x (Fin 100) then ''None'' else reason)
                     | v \<Rightarrow> reason);
          meta = join [NL]
            [[],
             ''      <div class="meta">'',
             ''        <div><span class="label">Student name:</span> '' @ nm @ ''</div>'',
             ''        <div><span class="label">Score:</span> '' @ sc @ ''</div>'',
             ''      </div>'',
             ''      <div class="row reason"><span class="label">Reason:</span> '' @ reason @ ''</div>'',
             ''      <div class="row"><span class="label">Need to improve:</span> '' @ needImp @ ''</div>'',
             ''    ''];
          qs = (if 0 < length (details s)
                then concat (''<h2>Per-question evaluation</h2>'' # mapIndexed questionHTML (details s))
                else ''<div class="row">No per-question details available.</div>'')
      in ''<div class="student">'' @ meta @ qs @ ''</div>'')\<close>

text \<open>\<open>.replace(/</g, '&lt;').replace(/>/g, '&gt;')\<close>\<close>

definition escapeAngles :: "string \<Rightarrow> string" where
  \<open>escapeAngles s =
     concat (map (\<lambda>c. if c = CHR ''<'' then ''&lt;'' else if c = CHR ''>'' then ''&gt;'' else [c]) s)\<close>

text \<open>
  The raw result and the titles are strings, empty when absent; the scores are
  an array, empty when absent.
\<close>

definition buildReportHTML ::
  "(rat \<Rightarrow> string) \<Rightarrow> student list \<Rightarrow> string \<Rightarrow> string \<Rightarrow> string \<Rightarrow> string" where
  \<open>buildReportHTML nts scores result title lastTitle =
     (let titleText = baseTitle lastTitle title ''Report'';
          header = ''<h1>'' @ titleText @ ''</h1>''
      in if 0 < length scores
         then (let body = concat (mapIndexed (studentHTML nts) scores)
               in ''<!DOCTYPE html><html><head><meta charset="utf-8">'' @ style
                  @ ''</head><body>'' @ header @ body @ ''</body></html>'')
         else (let plainBody = join [NL]
                 [[],
                  ''    <div class="student">'',
                  ''      <pre class="reason">'' @ escapeAngles result @ ''</pre>'',
                  ''    </div>'',
                  ''  '']
               in ''<!DOCTYPE html><html><head><meta charset="utf-8">'' @ style
                  @ ''</head><body>'' @ header @ plainBody @ ''</body></html>''))\<close>

section \<open>downloadDoc and downloadPdf\<close>

text \<open>\<open>downloadDoc\<close>: the blob offered for download, \<open>None\<close> when it returns early.\<close>

definition downloadDoc ::
  "(rat \<Rightarrow> string) \<Rightarrow> string \<Rightarrow> student list \<Rightarrow> string \<Rightarrow> string \<Rightarrow> download option" where
  "downloadDoc nts result scores title lastTitle =
     (if result = [] \<and> \<not> 0 < length scores then None
      else (let html = buildReportHTML nts scores result title lastTitle;
                safeTitle = sanitize (baseTitle lastTitle title ''report'')
            in Some \<lparr>content = html, mediaType = ''application/msword'',
                     fileName = safeTitle @ ''.doc''\<rparr>))"

text \<open>
  \<open>downloadPdf\<close>: the text written into the document of the new window, which
  is then printed; \<open>None\<close> when it returns early. \<open>win\<close> tells whether
  \<open>window.open\<close> gave a window.
\<close>

definition downloadPdf ::
  "(rat \<Rightarrow> string) \<Rightarrow> bool \<Rightarrow> string \<Rightarrow> student list \<Rightarrow> string \<Rightarrow> string \<Rightarrow> string option" where
  "downloadPdf nts win result scores title lastTitle =
     (if result = [] \<and> \<not> 0 < length scores then None
      else (let html = buildReportHTML nts scores result title lastTitle
            in if \<not> win then None else Some html))"

section \<open>downloadExcel\<close>

definition extractFeedback :: "student \<Rightarrow> string" where
  "extractFeedback s =
     (if length (details s) = 0 then ''-''
      else (let feedbacks = List.map_filter (\<lambda>f. f)
                  (mapIndexed (\<lambda>idx d.
                     (case feedback d of
                        None \<Rightarrow> None
                      | Some f \<Rightarrow> if trim f \<noteq> []
                                  then Some (''Q'' @ digitsOf (idx + 1) @ '': '' @ trim f)
                                  else None)) (details s))
            in if 0 < length feedbacks then join '' | '' feedbacks else ''-''))"

text \<open>The objects the source maps the records to; \<open>None\<close> is a \<open>null\<close> score.\<close>

record scored =
  scoredName :: string
  score :: "jsnum option"
  scoredPercent :: jsvalue
  scoredReasoning :: string
  scoredFeedback :: string

definition toScored :: "student \<Rightarrow> scored" where
  "toScored s =
     \<lparr>scoredName = orDefault (name s) ''-'',
      score = (case score_percent s of Number x \<Rightarrow> Some x | _ \<Rightarrow> None),
      scoredPercent = score_percent s,
      scoredReasoning = orDefault (reasoning s) ''-'',
      scoredFeedback = extractFeedback s\<rparr>"

text \<open>A score read as a number; \<open>null\<close> would read as 0.\<close>

definition scoreNumber :: "scored \<Rightarrow> jsnum" where
  "scoreNumber s = (case score s of Some x \<Rightarrow> x | None \<Rightarrow> Fin 0)"

definition validScores :: "student list \<Rightarrow> scored list" where
  "validScores rawScores =
     filter (\<lambda>s. score s \<noteq> None \<and> \<not> isNaN (scoreNumber s)) (map toScored rawScores)"

definition scoresArray :: "student list \<Rightarrow> jsnum list" where
  "scoresArray rawScores = map scoreNumber (validScores rawScores)"

definition average :: "(rat \<Rightarrow> string) \<Rightarrow> student list \<Rightarrow> string" where
  "average nts rawScores =
     (if 0 < length (scoresArray rawScores)
      then toFixed2 nts (js_div_length (sumReduce (scoresArray rawScores))
                                       (length (scoresArray rawScores)))
      else ''N/A'')"

definition maxScore :: "student list \<Rightarrow> jsnum option" where
  "maxScore rawScores =
     (if 0 < length (scoresArray rawScores) then Some (Math_max (scoresArray rawScores)) else None)"

text \<open>The literal \<open>0.01\<close> of the source: the double nearest to one hundredth.\<close>

definition tolerance :: jsnum where
  "tolerance = toDouble (1 / 100)"

definition highestStudents :: "student list \<Rightarrow> scored list" where
  "highestStudents rawScores =
     (case maxScore rawScores of
        Some m \<Rightarrow> filter (\<lambda>s. js_less (js_abs (js_sub (scoreNumber s) m)) tolerance)
                         (validScores rawScores)
      | None \<Rightarrow> [])"

definition minScore :: "student list \<Rightarrow> jsnum option" where
  "minScore rawScores =
     (if 0 < length (scoresArray rawScores) then Some (Math_min (scoresArray rawScores)) else None)"

definition lowestStudents :: "student list \<Rightarrow> scored list" where
  "lowestStudents rawScores =
     (case minScore rawScores of
        Some m \<Rightarrow> filter (\<lambda>s. js_less (js_abs (js_sub (scoreNumber s) m)) tolerance)
                         (validScores rawScores)
      | None \<Rightarrow> [])"

text \<open>
  The statistics the sheet is built from. \<open>downloadExcel\<close> returns at once on
  an empty array (\<open>None\<close>); the rows, styles and file name it derives from
  these values are not part of the model.
\<close>

record statistics =
  statAverage :: string
  statCount :: nat
  statMax :: "jsnum option"
  statHighest :: "scored list"
  statMin :: "jsnum option"
  statLowest :: "scored list"

definition downloadExcel :: "(rat \<Rightarrow> string) \<Rightarrow> student list \<Rightarrow> statistics option" where
  "downloadExcel nts rawScores =
     (if length rawScores = 0 then None
      else Some \<lparr>statAverage = average nts rawScores,
                 statCount = length (validScores rawScores),
                 statMax = maxScore rawScores,
                 statHighest = highestStudents rawScores,
                 statMin = minScore rawScores,
                 statLowest = lowestStudents rawScores\<rparr>)"

section \<open>Notions used to state the properties\<close>

text \<open>
  The score of a record that enters the statistics: a number other than NaN.
  \<open>countedScores\<close> lists them for a collection, in its order.
\<close>

fun countedScore :: "jsvalue \<Rightarrow> jsnum option" where
  "countedScore (Number NaN) = None"
| "countedScore (Number x) = Some x"
| "countedScore v = None"

definition countedScores :: "student list \<Rightarrow> jsnum list" where
  "countedScores rawScores = List.map_filter (\<lambda>s. countedScore (score_percent s)) rawScores"

text \<open>
  A score record of the data model carries a finite number or no number at
  all. \<open>finiteScore\<close> reads the finite number of a score field, and
  \<open>numericScores\<close> lists the finite numbers of a collection in its order.
\<close>

fun finiteScore :: "jsvalue \<Rightarrow> rat option" where
  "finiteScore (Number (Fin x)) = Some x"
| "finiteScore v = None"

fun infiniteScore :: "jsvalue \<Rightarrow> bool" where
  "infiniteScore (Number PInf) = True"
| "infiniteScore (Number NInf) = True"
| "infiniteScore v = False"

definition numericScores :: "student list \<Rightarrow> rat list" where
  "numericScores rawScores = List.map_filter (\<lambda>s. finiteScore (score_percent s)) rawScores"

text \<open>
  The midpoint between the double nearest to 0.01 and the double before it,
  less than 0.01 by less than \<open>10^-18\<close>. \<open>withinOf m s\<close>: the
  score of \<open>s\<close> is a finite number at most that far from \<open>m\<close>.
\<close>

definition halfwayBelowTolerance :: rat where
  "halfwayBelowTolerance = 11529215046068469 / 2 ^ 60"

definition withinOf :: "rat \<Rightarrow> student \<Rightarrow> bool" where
  "withinOf m s = (case finiteScore (score_percent s) of
                     Some x \<Rightarrow> \<bar>x - m\<bar> \<le> halfwayBelowTolerance
                   | None \<Rightarrow> False)"

text \<open>A number that is a double.\<close>

definition isDouble :: "rat \<Rightarrow> bool" where
  "isDouble x = (toDouble x = Fin x)"

text \<open>The number of hundredths nearest to \<open>\<bar>q\<bar>\<close>, a tie going up.\<close>

definition hundredths :: "rat \<Rightarrow> nat" where
  "hundredths q = nat \<lfloor>\<bar>q\<bar> * 100 + 1 / 2\<rfloor>"

text \<open>The mean of a list of rationals.\<close>

definition mean :: "rat list \<Rightarrow> rat" where
  "mean xs = sum_list xs / of_nat (length xs)"

text \<open>
  The integers of the score markers found in a section, in the order content
  quality, structure, alignment.
\<close>

definition markerValues :: "string \<Rightarrow> nat list" where
  "markerValues section =
     map (digitsValue 10)
       (List.map_filter (\<lambda>m. m)
          [scoreMatch ''Content Quality Score:'' section,
           scoreMatch ''Structure Score:'' section,
           scoreMatch ''Alignment Score:'' section])"

text \<open>A number that is neither negative nor NaN: a finite one from 0 up, or Infinity.\<close>

fun notNegative :: "jsnum \<Rightarrow> bool" where
  "notNegative (Fin q) = (0 \<le> q)"
| "notNegative PInf = True"
| "notNegative x = False"

text \<open>The raw text of the example scenario.\<close>

definition exampleText :: string where
  "exampleText =
     join [NL]
       [''File: quiz1.pptx'',
        ''Total Slides: 10'',
        [],
        ''CONTENT EVALUATION'',
        ''Content Quality Score: 80/100'',
        ''Feedback: Good structure'',
        [],
        ''VISUAL DESIGN EVALUATION'',
        ''Structure Score: 60/100'']"

text \<open>
  Sample sections, for evaluating the extractor: markers with the values 1, 1
  and 2, a marker whose value is \<open>10^309\<close>, and a text with a file name and a
  marker whose value is \<open>10^400\<close>.
\<close>

definition thirdsText :: string where
  "thirdsText =
     join [NL]
       [''Content Quality Score: 1/100'',
        ''Structure Score: 1/100'',
        ''Alignment Score: 2/100'']"

definition hugeMarker :: string where
  "hugeMarker = ''Content Quality Score: 1'' @ replicate 309 (CHR ''0'') @ ''/100''"

definition overflowText :: string where
  "overflowText =
     join [NL]
       [''File: big.pptx'',
        ''Alignment Score: 1'' @ replicate 400 (CHR ''0'') @ ''/100'']"

text \<open>
  A block starts a Section when the loop body takes the arm that begins a new
  accumulation: the arm of a new file or the arm of the first part.
\<close>

definition startsSection :: "split_state \<Rightarrow> string \<Rightarrow> bool" where
  "startsSection st trimmed = (whichArm st trimmed = NewFile \<or> whichArm st trimmed = FirstPart)"

text \<open>The number of blocks that start a Section when the loop runs from a state.\<close>

fun countStarts :: "split_state \<Rightarrow> string list \<Rightarrow> nat" where
  "countStarts st [] = 0"
| "countStarts st (p # ps) =
     (if startsSection st (trim p) then 1 else 0) + countStarts (processPart st p) ps"

text \<open>What holds of every state of the loop: nothing is current before the first block.\<close>

definition wellFormed :: "split_state \<Rightarrow> bool" where
  "wellFormed st = (currentFile st \<noteq> [] \<or> (currentFilename st = [] \<and> fileSections st = []))"

text \<open>Sample inputs, for evaluating the splitter.\<close>

definition headerA :: string where
  "headerA = join [NL] [''File: a.pptx'', ''Total Slides: 3'']"

definition headerB :: string where
  "headerB = join [NL] [''File: b.pptx'', ''Total Slides: 5'']"

definition twoFiles :: string where
  "twoFiles = join [NL, NL] [headerA, headerA, headerB, ''File: c.pptx'']"

definition threeLineFeeds :: string where
  "threeLineFeeds = ''a'' @ [NL, NL, NL] @ ''b''"

text \<open>Sample collections, for evaluating the statistics.\<close>

definition plainRecord :: "string \<Rightarrow> jsvalue \<Rightarrow> student" where
  "plainRecord n v = \<lparr>name = Some n, score_percent = v, reasoning = None, details = []\<rparr>"

definition mixedScores :: "student list" where
  "mixedScores =
     [plainRecord ''a'' (Number (Fin 100)),
      plainRecord ''c'' (String ''-''),
      plainRecord ''d'' (Number (Fin 40))]"

definition lowScores :: "student list" where
  "lowScores =
     [plainRecord ''a'' (Number (Fin (3 / 8))),
      plainRecord ''b'' (Number (Fin 0)),
      plainRecord ''c'' (Number (Fin 0)),
      plainRecord ''d'' (Number (Fin 0)),
      plainRecord ''e'' (Number (Fin 0))]"

text \<open>The doubles nearest to 92.005, to 0.0101 and to 0.0001.\<close>

definition tiedScores :: "student list" where
  "tiedScores =
     [plainRecord ''a'' (Number (Fin 92)),
      plainRecord ''b'' (Number (Fin (809284538508247 / 2 ^ 43))),
      plainRecord ''c'' (String ''-''),
      plainRecord ''d'' (Number (Fin 40))]"

definition closeScores :: "student list" where
  "closeScores =
     [plainRecord ''a'' (Number (Fin (5822253598264577 / 2 ^ 59))),
      plainRecord ''b'' (Number (Fin (7378697629483821 / 2 ^ 66)))]"

section \<open>Evaluation of digits and numbers\<close>

lemma floor_rat_numeral: "\<lfloor>numeral a / (numeral b :: rat)\<rfloor> = numeral a div numeral b"
  by (metis floor_divide_of_int_eq of_int_numeral)

lemma digitChar_eval:
  "digitChar 0 = CHR ''0''" "digitChar (Suc 0) = CHR ''1''" "digitChar 2 = CHR ''2''"
  "digitChar 3 = CHR ''3''" "digitChar 4 = CHR ''4''" "digitChar 5 = CHR ''5''"
  "digitChar 6 = CHR ''6''" "digitChar 7 = CHR ''7''" "digitChar 8 = CHR ''8''"
  "digitChar 9 = CHR ''9''"
  by (simp_all add: digitChar_def char_of_def bit_iff_odd)

lemma digitsOf_numeral:
  "digitsOf (numeral k) =
     (if numeral k < (10::nat) then [digitChar (numeral k)]
      else digitsOf (numeral k div 10) @ [digitChar (numeral k mod 10)])"
  by (rule digitsOf.simps)

lemma digitsOf_small: "digitsOf 0 = ''0''" "digitsOf (Suc 0) = ''1''"
  by (simp_all add: digitsOf.simps digitChar_eval)

lemmas eval_digits = floor_rat_numeral digitChar_eval digitsOf_numeral digitsOf_small

section \<open>Inputs that are not strings\<close>

text \<open>
  C10. Both exported functions of the PPT processors are total functions of
  the model, and on every value that is not a string (null, undefined, a
  boolean, a number, an object) each of them returns the empty array.
\<close>

theorem non_string_input_gives_empty:
  "\<not> isString v \<Longrightarrow> splitPPTFileSections v = [] \<and> extractPPTScores v = []"
  by (cases v) simp_all

theorem non_string_input_gives_empty_witness:
  "\<not> isString Null \<and> splitPPTFileSections Null = [] \<and> extractPPTScores Null = []"
  using non_string_input_gives_empty [of Null] by simp

section \<open>The document export and the print export\<close>

text \<open>
  C8. For all scores, raw result text, title and last-used title, the print
  path writes exactly the content of the blob that the document path offers:
  both are the result of the one call
  \<open>buildReportHTML(scores, result, title, lastTitle)\<close>, both return early on
  the same inputs, and the document path adds only the media type and the
  file name. (The print path also returns early when no window opens.)
\<close>

theorem doc_and_pdf_same_markup:
  "downloadPdf nts True result scores title lastTitle
     = map_option content (downloadDoc nts result scores title lastTitle)
   \<and> downloadPdf nts False result scores title lastTitle = None
   \<and> downloadDoc nts result scores title lastTitle
       = (if result = [] \<and> scores = [] then None
          else Some \<lparr>content = buildReportHTML nts scores result title lastTitle,
                     mediaType = ''application/msword'',
                     fileName = sanitize (baseTitle lastTitle title ''report'') @ ''.doc''\<rparr>)"
  by (simp add: downloadPdf_def downloadDoc_def Let_def)

theorem doc_and_pdf_same_markup_witness:
  "downloadPdf integerPart True ''ok'' [] ''T'' []
     = map_option content (downloadDoc integerPart ''ok'' [] ''T'' [])
   \<and> downloadDoc integerPart ''ok'' [] ''T'' []
       = Some \<lparr>content = buildReportHTML integerPart [] ''ok'' ''T'' [],
                mediaType = ''application/msword'',
                fileName = sanitize (baseTitle [] ''T'' ''report'') @ ''.doc''\<rparr>"
  using doc_and_pdf_same_markup [of integerPart "''ok''" "[]" "''T''" "[]"] by simp

section \<open>The field "Need to improve" of the plain-text reports\<close>

lemma scNum_toNumber: "scNum s = toNumber (score_percent s)"
  by (cases "score_percent s") (simp_all add: scNum_def)

lemma needImp_cases:
  "needImp s = (case toNumber (score_percent s) of
                  Fin x \<Rightarrow> if 100 \<le> x then ''None'' else orDefault (reasoning s) []
                | _ \<Rightarrow> orDefault (reasoning s) [])"
  by (cases "toNumber (score_percent s)") (simp_all add: needImp_def scNum_toNumber reason_def)

lemma resultRecordText_eq:
  "resultRecordText nts s =
     join [NL] ([''Student name: '' @ orDefault (name s) ''-'',
                 ''Score: '' @ scText nts s,
                 ''Reason: '' @ reason s,
                 ''Need to improve: '' @ needImp s] @ detailsLines s)"
  by (simp add: resultRecordText_def Let_def scText_def scNum_def reason_def needImp_def)

text \<open>
  C6, as amended. In the text of \<open>buildStudentText\<close> and in the text of one
  record of \<open>downloadResult\<close>, the field "Need to improve" is the literal
  \<open>None\<close> when the score, read as a number (a number as it is, any other
  value through \<open>Number(...)\<close>), is finite and at least 100, and is the
  reasoning text (possibly empty) otherwise. So the field is \<open>None\<close> exactly
  when the score is finite and at least 100, or the reasoning text is itself
  \<open>None\<close>.
\<close>

theorem need_to_improve_field:
  "(let field = (case toNumber (score_percent s) of
                   Fin x \<Rightarrow> if 100 \<le> x then ''None'' else orDefault (reasoning s) []
                 | _ \<Rightarrow> orDefault (reasoning s) [])
    in buildStudentText nts s =
         join [NL] ([''Student name: '' @ orDefault (name s) ''Student'',
                     ''Score: '' @ scText nts s,
                     ''Reason: '' @ orDefault (reasoning s) [],
                     ''Need to improve: '' @ field] @ detailsLines s)
     \<and> resultRecordText nts s =
         join [NL] ([''Student name: '' @ orDefault (name s) ''-'',
                     ''Score: '' @ scText nts s,
                     ''Reason: '' @ orDefault (reasoning s) [],
                     ''Need to improve: '' @ field] @ detailsLines s)
     \<and> (field = ''None'') =
         ((case toNumber (score_percent s) of Fin x \<Rightarrow> 100 \<le> x | _ \<Rightarrow> False)
          \<or> orDefault (reasoning s) [] = ''None''))"
  unfolding Let_def needImp_cases [symmetric] resultRecordText_eq
  by (simp add: buildStudentText_def reason_def needImp_cases split: jsnum.splits)

theorem need_to_improve_field_witness:
  "buildStudentText integerPart
     \<lparr>name = Some ''A'', score_percent = Number (Fin 100), reasoning = Some ''All correct'', details = []\<rparr>
   = ''Student name: A'' @ [NL] @ ''Score: 100.00'' @ [NL] @ ''Reason: All correct'' @ [NL]
     @ ''Need to improve: None''"
  using need_to_improve_field [of "\<lparr>name = Some ''A'', score_percent = Number (Fin 100), reasoning = Some ''All correct'', details = []\<rparr>" integerPart]
  by (simp add: Let_def orDefault_def scText_def scNum_def toFixed2_def eval_digits detailsLines_def)

text \<open>
  The claim as first stated has an "if and only if": the field would be
  \<open>None\<close> only for a score of at least 100. A record with the score 50 and
  the reasoning text \<open>None\<close> has the field \<open>None\<close> all the same.
\<close>

theorem need_to_improve_counterexample:
  "buildStudentText integerPart
     \<lparr>name = Some ''A'', score_percent = Number (Fin 50), reasoning = Some ''None'', details = []\<rparr>
   = ''Student name: A'' @ [NL] @ ''Score: 50.00'' @ [NL] @ ''Reason: None'' @ [NL]
     @ ''Need to improve: None''
   \<and> \<not> js_ge (Fin 50) (Fin 100)"
  by (simp add: buildStudentText_def Let_def orDefault_def scText_def scNum_def toFixed2_def
        eval_digits detailsLines_def reason_def needImp_def)

section \<open>Properties of the rounding to a double\<close>

text \<open>Evaluation of the rounding at a fraction of two numerals.\<close>

lemma ceiling_rat_numeral:
  "\<lceil>numeral a / (numeral b :: rat)\<rceil> = - ((- numeral a) div numeral b)"
  by (metis ceiling_divide_eq_div of_int_numeral)

lemma bitLength_numeral:
  "bitLength (numeral k) = Suc (bitLength (numeral k div 2))"
  by (subst bitLength.simps) simp

lemma bitLength_small: "bitLength 0 = 0" "bitLength (Suc 0) = 1"
  by (simp_all add: bitLength.simps)

lemmas eval_double = floor_rat_numeral ceiling_rat_numeral bitLength_numeral bitLength_small
  toDouble_def binaryExponent_def roundHalfEven_def pow2_def Let_def

text \<open>The binary exponent.\<close>

lemma of_nat_succ_le: "n < m \<Longrightarrow> of_nat n + 1 \<le> (of_nat m :: rat)"
proof -
  assume "n < m"
  then have "Suc n \<le> m" by simp
  then have "of_nat (Suc n) \<le> (of_nat m :: rat)" by (simp only: of_nat_le_iff)
  then show ?thesis by simp
qed

lemma bitLength_bounds:
  "0 < n \<Longrightarrow> 2 ^ (bitLength n - 1) \<le> n \<and> n < 2 ^ bitLength n"
proof (induction n rule: bitLength.induct)
  case (1 n)
  show ?case
  proof (cases "n div 2 = 0")
    case True
    with "1.prems" have "n = 1" by (cases n) auto
    then show ?thesis by (simp add: bitLength_small)
  next
    case False
    then have pos: "0 < n div 2" by simp
    from "1.IH" [OF _ pos] "1.prems"
    have ih: "2 ^ (bitLength (n div 2) - 1) \<le> n div 2" "n div 2 < 2 ^ bitLength (n div 2)"
      by simp_all
    have b: "bitLength n = Suc (bitLength (n div 2))"
      using "1.prems" by (subst bitLength.simps) simp
    have "0 < bitLength (n div 2)"
      using pos by (subst bitLength.simps) simp
    then have "(2::nat) ^ (bitLength n - 1) = 2 * 2 ^ (bitLength (n div 2) - 1)"
      by (cases "bitLength (n div 2)") (simp_all add: b)
    with ih show ?thesis by (simp add: b) linarith
  qed
qed

lemma pow2_powi: "pow2 e = 2 powi e"
  by (simp add: pow2_def power_int_def power_one_over)

lemma pow2_pos: "0 < pow2 e"
  by (simp add: pow2_def)

lemma pow2_add: "pow2 (a + b) = pow2 a * pow2 b"
  by (simp add: pow2_powi power_int_add)

lemma pow2_nat: "pow2 (int n) = 2 ^ n"
  by (simp add: pow2_def)

lemma pow2_mono: "a \<le> b \<Longrightarrow> pow2 a \<le> pow2 b"
  by (simp add: pow2_powi power_int_increasing)

lemma pow2_less_imp: "pow2 a < pow2 b \<Longrightarrow> a < b"
  using pow2_mono [of b a] by (cases "a < b") auto

lemma binaryExponent_bounds:
  assumes "0 < a"
  shows "pow2 (binaryExponent a) \<le> a \<and> a < pow2 (binaryExponent a + 1)"
proof (cases "1 \<le> a")
    case True
    define n where "n = nat \<lfloor>a\<rfloor>"
    have n: "0 < n" "of_nat n \<le> a" "a < of_nat n + 1"
      using True by (auto simp: n_def le_floor_iff) linarith+
    from bitLength_bounds [OF n(1)]
    have lo: "(2::nat) ^ (bitLength n - 1) \<le> n" and hi: "n < 2 ^ bitLength n" by simp_all
    have bl: "0 < bitLength n" using n(1) by (subst bitLength.simps) simp
    have e: "binaryExponent a = int (bitLength n - 1)"
      using True bl by (simp add: binaryExponent_def n_def of_nat_diff)
    have "pow2 (binaryExponent a) = of_nat (2 ^ (bitLength n - 1))"
      by (simp add: e pow2_nat)
    also have "\<dots> \<le> of_nat n" using lo by (simp only: of_nat_le_iff)
    finally have A: "pow2 (binaryExponent a) \<le> a" using n(2) by simp
    have "binaryExponent a + 1 = int (bitLength n)"
      using bl by (simp add: e)
    then have "pow2 (binaryExponent a + 1) = of_nat (2 ^ bitLength n)"
      by (simp add: pow2_nat)
    moreover have "of_nat n + 1 \<le> (of_nat (2 ^ bitLength n) :: rat)"
      using hi by (rule of_nat_succ_le)
    ultimately have "a < pow2 (binaryExponent a + 1)" using n(3) by simp
    with A show ?thesis by simp
  next
    case False
    define x where "x = 1 / a"
    define n where "n = nat (\<lceil>x\<rceil> - 1)"
    have x: "1 < x" using False assms by (simp add: x_def)
    then have c: "2 \<le> \<lceil>x\<rceil>" by (simp add: le_ceiling_iff) 
    have n: "0 < n" "of_nat n < x" "x \<le> of_nat n + 1"
      using c by (auto simp: n_def less_ceiling_iff) linarith+
    from bitLength_bounds [OF n(1)]
    have lo: "(2::nat) ^ (bitLength n - 1) \<le> n" and hi: "n < 2 ^ bitLength n" by simp_all
    have bl: "0 < bitLength n" using n(1) by (subst bitLength.simps) simp
    have e: "binaryExponent a = - int (bitLength n)"
      using False by (simp add: binaryExponent_def n_def x_def)
    have "x \<le> of_nat (2 ^ bitLength n)"
    proof -
      have "of_nat n + 1 \<le> (of_nat (2 ^ bitLength n) :: rat)"
        using hi by (rule of_nat_succ_le)
      with n(3) show ?thesis by simp
    qed
    then have "1 / a \<le> 2 ^ bitLength n" by (simp add: x_def)
    then have "1 / 2 ^ bitLength n \<le> a"
      using assms by (simp add: field_simps)
    moreover have "pow2 (- int (bitLength n)) = 1 / 2 ^ bitLength n"
      by (simp add: pow2_def)
    ultimately have A: "pow2 (binaryExponent a) \<le> a" by (simp add: e)
    have "(2::rat) ^ (bitLength n - 1) \<le> of_nat n"
      using of_nat_mono [OF lo, where ?'a = rat] by simp
    with n(2) have "2 ^ (bitLength n - 1) < 1 / a" unfolding x_def by linarith
    then have "a < 1 / 2 ^ (bitLength n - 1)"
      using assms by (simp add: field_simps)
    moreover have "pow2 (- int (bitLength n) + 1) = 1 / 2 ^ (bitLength n - 1)"
      using bl by (cases "bitLength n") (simp_all add: pow2_def)
    ultimately have "a < pow2 (binaryExponent a + 1)" by (simp add: e)
    with A show ?thesis by simp
qed


text \<open>Rounding to the nearest integer.\<close>

lemma roundHalfEven_of_int [simp]: "roundHalfEven (of_int k) = k"
  by (simp add: roundHalfEven_def Let_def)

lemma roundHalfEven_ge: "of_int k \<le> y \<Longrightarrow> k \<le> roundHalfEven y"
proof -
  assume "of_int k \<le> y"
  then have "k \<le> \<lfloor>y\<rfloor>" by (simp add: le_floor_iff)
  then show ?thesis by (simp add: roundHalfEven_def Let_def)
qed

lemma roundHalfEven_le: "y \<le> of_int k \<Longrightarrow> roundHalfEven y \<le> k"
proof (cases "y = of_int k")
  case True
  then show ?thesis by simp
next
  case False
  assume "y \<le> of_int k"
  with False have "y < of_int k" by simp
  then have "\<lfloor>y\<rfloor> < k" by (simp add: floor_less_iff)
  then show ?thesis by (simp add: roundHalfEven_def Let_def)
qed

text \<open>The rounding is the identity on the whole numbers up to 2^53, is never negative on a
  number that is not, and overflows to Infinity from 2^1024.\<close>

lemma toDouble_pos:
  "0 < q \<Longrightarrow> toDouble q =
     (let e = max (binaryExponent q) (- 1022); ulp = pow2 (e - 52);
          r = of_int (roundHalfEven (q / ulp)) * ulp
      in if pow2 1024 \<le> r then PInf else Fin r)"
  by (simp add: toDouble_def Let_def)

lemma toDouble_nonneg:
  assumes "0 \<le> q"
  shows "toDouble q = PInf \<or> (\<exists>r\<ge>0. toDouble q = Fin r)"
proof (cases "q = 0")
  case True
  then show ?thesis by (simp add: toDouble_def)
next
  case False
  with assms have q: "0 < q" by simp
  define ulp where "ulp = pow2 (max (binaryExponent q) (- 1022) - 52)"
  have "0 < ulp" by (simp add: ulp_def pow2_pos)
  with q have "of_int 0 \<le> q / ulp" by simp
  then have "0 \<le> roundHalfEven (q / ulp)" by (rule roundHalfEven_ge)
  with \<open>0 < ulp\<close> have "0 \<le> of_int (roundHalfEven (q / ulp)) * ulp" by simp
  then show ?thesis
    unfolding toDouble_pos [OF q] Let_def ulp_def by auto
qed

lemma toDouble_overflow:
  assumes "pow2 1024 \<le> q"
  shows "toDouble q = PInf"
proof -
  have q: "0 < q" using assms pow2_pos [of 1024] by linarith
  define e where "e = binaryExponent q"
  define ulp where "ulp = pow2 (e - 52)"
  have "pow2 1024 < pow2 (e + 1)"
    using binaryExponent_bounds [OF q] assms by (simp add: e_def)
  then have e: "1024 \<le> e" using pow2_less_imp [of 1024 "e + 1"] by simp
  have ulp: "0 < ulp" by (simp add: ulp_def pow2_pos)
  have split: "pow2 e = pow2 52 * ulp"
    using pow2_add [of 52 "e - 52"] by (simp add: ulp_def)
  have "pow2 e \<le> q" using binaryExponent_bounds [OF q] by (simp add: e_def)
  then have "pow2 52 \<le> q / ulp" using ulp by (simp add: split pos_le_divide_eq)
  moreover have "pow2 52 = of_int (2 ^ 52)" by (simp add: pow2_def)
  ultimately have "of_int (2 ^ 52) \<le> q / ulp" by simp
  then have "2 ^ 52 \<le> roundHalfEven (q / ulp)" by (rule roundHalfEven_ge)
  then have "(of_int (2 ^ 52) :: rat) \<le> of_int (roundHalfEven (q / ulp))"
    by (simp only: of_int_le_iff)
  then have "pow2 52 * ulp \<le> of_int (roundHalfEven (q / ulp)) * ulp"
    using ulp \<open>pow2 52 = of_int (2 ^ 52)\<close> by (simp only: mult_le_cancel_right) simp
  then have "pow2 e \<le> of_int (roundHalfEven (q / ulp)) * ulp" by (simp add: split)
  moreover have "pow2 1024 \<le> pow2 e" using e by (rule pow2_mono)
  ultimately have "pow2 1024 \<le> of_int (roundHalfEven (q / ulp)) * ulp" by linarith
  moreover have "max (binaryExponent q) (- 1022) = e" using e by (simp add: e_def)
  ultimately show ?thesis
    unfolding toDouble_pos [OF q] Let_def ulp_def by simp
qed

lemma toDouble_exact:
  assumes q: "0 < q" and k: "q / pow2 (max (binaryExponent q) (- 1022) - 52) = of_int k"
    and lt: "q < pow2 1024"
  shows "toDouble q = Fin q"
proof -
  define ulp where "ulp = pow2 (max (binaryExponent q) (- 1022) - 52)"
  have ulp: "0 < ulp" by (simp add: ulp_def pow2_pos)
  have k': "q / ulp = of_int k" using k by (simp add: ulp_def)
  then have "of_int k * ulp = q" using ulp by (simp add: field_simps)
  then have "of_int (roundHalfEven (q / ulp)) * ulp = q"
    by (simp add: k')
  then show ?thesis
    using lt unfolding toDouble_pos [OF q] Let_def ulp_def [symmetric] by simp
qed

lemma toDouble_of_nat:
  assumes "n \<le> 2 ^ 53"
  shows "toDouble (of_nat n) = Fin (of_nat n)"
proof (cases "n = 0")
  case True
  then show ?thesis by (simp add: toDouble_def)
next
  case False
  define q :: rat where "q = of_nat n"
  have q: "0 < q" "1 \<le> q" using False by (simp_all add: q_def)
  have q53: "q \<le> pow2 53"
    using of_nat_mono [OF assms, where ?'a = rat] by (simp add: q_def pow2_def)
  define e where "e = binaryExponent q"
  have "pow2 0 < pow2 (e + 1)"
    using binaryExponent_bounds [OF q(1)] q(2) by (simp add: e_def pow2_def)
  then have e0: "0 \<le> e" using pow2_less_imp [of 0 "e + 1"] by simp
  have "pow2 e < pow2 54"
  proof -
    have "pow2 e \<le> q" using binaryExponent_bounds [OF q(1)] by (simp add: e_def)
    moreover have "pow2 53 < pow2 54" by (simp add: pow2_def)
    ultimately show ?thesis using q53 by linarith
  qed
  then have e53: "e \<le> 53" using pow2_less_imp [of e 54] by simp
  have m: "max (binaryExponent q) (- 1022) = e" using e0 by (simp add: e_def)
  have "\<exists>k. q / pow2 (e - 52) = of_int k"
  proof (cases "e = 53")
    case True
    have "pow2 53 \<le> q" using binaryExponent_bounds [OF q(1)] by (simp add: e_def True [symmetric])
    with q53 have "q = pow2 53" by simp
    then have "q / pow2 (e - 52) = of_int (2 ^ 52)" by (simp add: True pow2_def)
    then show ?thesis ..
  next
    case False
    with e53 have le: "e \<le> 52" by simp
    then have "pow2 (e - 52) = 1 / 2 ^ nat (52 - e)"
      by (cases "e = 52") (simp_all add: pow2_def)
    then have "q / pow2 (e - 52) = of_int (int n * 2 ^ nat (52 - e))"
      by (simp add: q_def)
    then show ?thesis ..
  qed
  then obtain k where k: "q / pow2 (max (binaryExponent q) (- 1022) - 52) = of_int k"
    unfolding m by blast
  have "pow2 53 < pow2 1024" by (simp add: pow2_def)
  with q53 have "q < pow2 1024" by linarith
  from toDouble_exact [OF q(1) k this] show ?thesis by (simp add: q_def)
qed

lemma foldl_zeros:
  "foldl (\<lambda>n c. 10 * n + charDigit c) a (replicate k (CHR ''0'')) = a * 10 ^ k"
  by (induction k arbitrary: a) (simp_all add: charDigit_def isDigit_def)

lemma digitsValue_one_zeros:
  "digitsValue 10 (CHR ''1'' # replicate k (CHR ''0'')) = 10 ^ k"
  by (simp add: digitsValue_def foldl_zeros) (simp add: charDigit_def isDigit_def)

lemma roundHalfEven_le_even:
  assumes "even k"
  shows "roundHalfEven y \<le> k \<longleftrightarrow> y \<le> of_int k + 1 / 2"
proof -
  define f where "f = \<lfloor>y\<rfloor>"
  define d where "d = y - of_int f"
  have d: "0 \<le> d" "d < 1" by (simp_all add: d_def f_def) linarith
  have y: "y = of_int f + d" by (simp add: d_def)
  have r: "roundHalfEven y = (if d < 1 / 2 then f else if 1 / 2 < d then f + 1
                              else if even f then f else f + 1)"
    by (simp add: roundHalfEven_def Let_def f_def d_def)
  consider "f < k" | "f = k" | "k < f" by linarith
  then show ?thesis
  proof cases
    case 1
    then have "of_int f + 1 \<le> (of_int k :: rat)"
      by (metis of_int_1 of_int_add of_int_le_iff zless_imp_add1_zle)
    then have "y \<le> of_int k + 1 / 2" using d by (simp add: y)
    moreover have "roundHalfEven y \<le> k" using 1 by (simp add: r)
    ultimately show ?thesis by simp
  next
    case 2
    have "roundHalfEven y \<le> k \<longleftrightarrow> d \<le> 1 / 2" using assms d by (auto simp: r 2)
    moreover have "y \<le> of_int k + 1 / 2 \<longleftrightarrow> d \<le> 1 / 2" by (simp add: y 2)
    ultimately show ?thesis by simp
  next
    case 3
    then have "of_int k + 1 \<le> (of_int f :: rat)"
      by (metis of_int_1 of_int_add of_int_le_iff zless_imp_add1_zle)
    then have "\<not> y \<le> of_int k + 1 / 2" using d by (simp add: y)
    moreover have "\<not> roundHalfEven y \<le> k" using 3 by (simp add: r)
    ultimately show ?thesis by simp
  qed
qed

lemma binaryExponent_unique:
  assumes "pow2 e \<le> a" "a < pow2 (e + 1)"
  shows "binaryExponent a = e"
proof -
  have a: "0 < a" using assms(1) pow2_pos [of e] by linarith
  from binaryExponent_bounds [OF a]
  have b: "pow2 (binaryExponent a) \<le> a" "a < pow2 (binaryExponent a + 1)" by simp_all
  have "pow2 e < pow2 (binaryExponent a + 1)" using assms(1) b(2) by linarith
  then have "e < binaryExponent a + 1" by (rule pow2_less_imp)
  moreover have "pow2 (binaryExponent a) < pow2 (e + 1)" using assms(2) b(1) by linarith
  then have "binaryExponent a < e + 1" by (rule pow2_less_imp)
  ultimately show ?thesis by simp
qed

text \<open>A positive number rounds to a number between the powers of two around it.\<close>

lemma toDouble_between:
  assumes a: "0 < a" and e: "e = max (binaryExponent a) (- 1022)"
  shows "\<exists>r. toDouble a = (if pow2 1024 \<le> r then PInf else Fin r) \<and> 0 \<le> r
           \<and> r \<le> pow2 (e + 1) \<and> (binaryExponent a = e \<longrightarrow> pow2 e \<le> r)"
proof -
  define ulp where "ulp = pow2 (e - 52)"
  define r where "r = of_int (roundHalfEven (a / ulp)) * ulp"
  have ulp: "0 < ulp" by (simp add: ulp_def pow2_pos)
  have p53: "pow2 53 = of_int (2 ^ 53)" and p52: "pow2 52 = of_int (2 ^ 52)"
    by (simp_all add: pow2_def)
  have up: "pow2 (e + 1) = of_int (2 ^ 53) * ulp"
    using pow2_add [of 53 "e - 52"] by (simp add: ulp_def p53 add.commute)
  have lo: "pow2 e = of_int (2 ^ 52) * ulp"
    using pow2_add [of 52 "e - 52"] by (simp add: ulp_def p52)
  have "a < pow2 (binaryExponent a + 1)" using binaryExponent_bounds [OF a] by simp
  also have "\<dots> \<le> pow2 (e + 1)" by (rule pow2_mono) (simp add: e)
  finally have "a / ulp \<le> of_int (2 ^ 53)"
    using ulp by (simp add: up pos_divide_le_eq)
  then have "roundHalfEven (a / ulp) \<le> 2 ^ 53" by (rule roundHalfEven_le)
  then have "(of_int (roundHalfEven (a / ulp)) :: rat) \<le> of_int (2 ^ 53)"
    by (simp only: of_int_le_iff)
  then have r1: "r \<le> pow2 (e + 1)"
    using ulp unfolding r_def up by (simp only: mult_le_cancel_right) simp
  have "of_int 0 \<le> a / ulp" using a ulp by simp
  then have "0 \<le> roundHalfEven (a / ulp)" by (rule roundHalfEven_ge)
  then have r0: "0 \<le> r" using ulp by (simp add: r_def)
  have r2: "pow2 e \<le> r" if "binaryExponent a = e"
  proof -
    have "pow2 e \<le> a" using binaryExponent_bounds [OF a] that by simp
    then have "of_int (2 ^ 52) \<le> a / ulp"
      using ulp by (simp add: lo pos_le_divide_eq)
    then have "2 ^ 52 \<le> roundHalfEven (a / ulp)" by (rule roundHalfEven_ge)
    then have "(of_int (2 ^ 52) :: rat) \<le> of_int (roundHalfEven (a / ulp))"
      by (simp only: of_int_le_iff)
    then show ?thesis
      using ulp unfolding r_def lo by (simp only: mult_le_cancel_right) simp
  qed
  have "toDouble a = (if pow2 1024 \<le> r then PInf else Fin r)"
    unfolding toDouble_pos [OF a] Let_def r_def ulp_def e by simp
  then show ?thesis using r0 r1 r2 by blast
qed

lemma tolerance_eval: "tolerance = Fin (5764607523034235 / 2 ^ 59)"
  by (simp add: tolerance_def eval_double)

lemma toDouble_minus: "toDouble (- q) = js_neg (toDouble q)"
  by (simp add: toDouble_def Let_def)

lemma js_abs_toDouble: "js_abs (toDouble d) = toDouble \<bar>d\<bar>"
proof -
  have pos: "js_abs (toDouble a) = toDouble a" if "0 \<le> a" for a
    using toDouble_nonneg [OF that] by auto
  show ?thesis
  proof (cases "0 \<le> d")
    case True
    then show ?thesis by (simp add: pos)
  next
    case False
    then have a: "0 \<le> - d" "\<bar>d\<bar> = - d" by simp_all
    have "toDouble d = js_neg (toDouble (- d))" using toDouble_minus [of "- d"] by simp
    moreover have "js_abs (js_neg x) = js_abs x" for x by (cases x) simp_all
    ultimately show ?thesis using pos [OF a(1)] by (simp add: a(2))
  qed
qed

text \<open>
  The test \<open>Math.abs(x - m) < 0.01\<close> on the rounded difference: it holds
  exactly when the difference itself is at most the midpoint between the
  double 0.01 and the double before it.
\<close>

lemma near_iff:
  "js_less (js_abs (toDouble d)) tolerance \<longleftrightarrow> \<bar>d\<bar> \<le> 11529215046068469 / 2 ^ 60"
proof -
  define a where "a = \<bar>d\<bar>"
  have p7: "pow2 (- 7) = 1 / 128" and p6: "pow2 (- 6) = 1 / 64" by (simp_all add: pow2_def)
  have big: "(1::rat) < pow2 1024" by (simp add: pow2_def)
  have "js_less (toDouble a) tolerance \<longleftrightarrow> a \<le> 11529215046068469 / 2 ^ 60"
  proof -
    consider "a = 0" | "0 < a" "a < 1 / 128" | "1 / 128 \<le> a" "a < 1 / 64" | "1 / 64 \<le> a"
      using a_def by linarith
    then show ?thesis
    proof cases
      case 1
      then show ?thesis by (simp add: toDouble_def tolerance_eval)
    next
      case 2
      define e where "e = max (binaryExponent a) (- 1022)"
      have "pow2 (binaryExponent a) < pow2 (- 7)"
        using binaryExponent_bounds [OF 2(1)] 2(2) by (simp add: p7)
      then have "binaryExponent a < - 7" by (rule pow2_less_imp)
      then have "e + 1 \<le> - 7" by (simp add: e_def)
      then have "pow2 (e + 1) \<le> pow2 (- 7)" by (rule pow2_mono)
      then have le: "pow2 (e + 1) \<le> 1 / 128" by (simp add: p7)
      from toDouble_between [OF 2(1) e_def]
      obtain r where r: "toDouble a = (if pow2 1024 \<le> r then PInf else Fin r)"
        "r \<le> pow2 (e + 1)" by blast
      have "r \<le> 1 / 128" using r(2) le by linarith
      moreover from this have "\<not> pow2 1024 \<le> r" using big by linarith
      ultimately have "js_less (toDouble a) tolerance" by (simp add: r(1) tolerance_eval)
      moreover have "a \<le> 11529215046068469 / 2 ^ 60" using 2(2) by simp
      ultimately show ?thesis by simp
    next
      case 3
      have a: "0 < a" using 3(1) by linarith
      have be: "binaryExponent a = - 7"
        using 3 by (intro binaryExponent_unique) (simp_all add: p7 p6)
      have u: "pow2 (- 59) = 1 / 2 ^ 59" by (simp add: pow2_def)
      define y where "y = a * 2 ^ 59"
      define r where "r = (of_int (roundHalfEven y) :: rat) / 2 ^ 59"
      from toDouble_between [OF a refl]
      obtain r' where r': "toDouble a = (if pow2 1024 \<le> r' then PInf else Fin r')"
        "r' \<le> pow2 (max (binaryExponent a) (- 1022) + 1)" by blast
      have "r' \<le> 1 / 64" using r'(2) by (simp add: be p6)
      then have nov: "\<not> pow2 1024 \<le> r'" using big by linarith
      have "toDouble a = (if pow2 1024 \<le> r then PInf else Fin r)"
        unfolding toDouble_pos [OF a] Let_def be r_def y_def by (simp add: u)
      with r'(1) nov have td: "toDouble a = Fin r" by (auto split: if_splits)
      have "js_less (toDouble a) tolerance \<longleftrightarrow> r < 5764607523034235 / 2 ^ 59"
        by (simp only: td tolerance_eval js_less.simps)
      also have "\<dots> \<longleftrightarrow> (of_int (roundHalfEven y) :: rat) < of_int 5764607523034235"
        by (simp add: r_def divide_less_cancel)
      also have "\<dots> \<longleftrightarrow> roundHalfEven y < 5764607523034235"
        by (simp only: of_int_less_iff)
      also have "\<dots> \<longleftrightarrow> roundHalfEven y \<le> 5764607523034234" by linarith
      also have "\<dots> \<longleftrightarrow> y \<le> of_int 5764607523034234 + 1 / 2"
        by (rule roundHalfEven_le_even) simp
      also have "\<dots> \<longleftrightarrow> a \<le> 11529215046068469 / 2 ^ 60"
        by (simp add: y_def field_simps)
      finally show ?thesis .
    next
      case 4
      have a: "0 < a" using 4 by linarith
      have "pow2 (- 6) < pow2 (binaryExponent a + 1)"
        using binaryExponent_bounds [OF a] 4 by (simp add: p6)
      then have "- 6 < binaryExponent a + 1" by (rule pow2_less_imp)
      then have ge: "- 6 \<le> binaryExponent a" by simp
      then have m: "binaryExponent a = max (binaryExponent a) (- 1022)" by simp
      from toDouble_between [OF a m]
      obtain r where r: "toDouble a = (if pow2 1024 \<le> r then PInf else Fin r)"
        "pow2 (binaryExponent a) \<le> r" by blast
      have "pow2 (- 6) \<le> pow2 (binaryExponent a)" using ge by (rule pow2_mono)
      then have "1 / 64 \<le> r" using r(2) by (simp add: p6)
      then have "\<not> js_less (toDouble a) tolerance" by (simp add: r(1) tolerance_eval)
      moreover have "\<not> a \<le> 11529215046068469 / 2 ^ 60" using 4 by simp
      ultimately show ?thesis by simp
    qed
  qed
  then show ?thesis by (simp add: js_abs_toDouble a_def)
qed


section \<open>Statistics of the spreadsheet\<close>

lemma foldl_js_max_Fin: "foldl js_max (Fin a) (map Fin xs) = Fin (fold max xs a)"
  by (induction xs arbitrary: a) (auto simp: max_def)

lemma Math_max_Fin: "xs \<noteq> [] \<Longrightarrow> Math_max (map Fin xs) = Fin (Max (set xs))"
proof (cases xs)
  case (Cons a list)
  have "Math_max (map Fin xs) = Fin (fold max list a)"
    using Cons by (simp add: Math_max_def foldl_js_max_Fin)
  also have "fold max list a = Max (set (a # list))"
    by (rule Max.set_eq_fold [symmetric])
  finally show ?thesis using Cons by simp
qed simp

lemma foldl_js_min_Fin: "foldl js_min (Fin a) (map Fin xs) = Fin (fold min xs a)"
  by (induction xs arbitrary: a) (auto simp: min_def)

lemma Math_min_Fin: "xs \<noteq> [] \<Longrightarrow> Math_min (map Fin xs) = Fin (Min (set xs))"
proof (cases xs)
  case (Cons a list)
  have "Math_min (map Fin xs) = Fin (fold min list a)"
    using Cons by (simp add: Math_min_def foldl_js_min_Fin)
  also have "fold min list a = Min (set (a # list))"
    by (rule Min.set_eq_fold [symmetric])
  finally show ?thesis using Cons by simp
qed simp

text \<open>Which records the filter of \<open>validScores\<close> keeps.\<close>

lemma valid_toScored:
  "(score (toScored s) \<noteq> None \<and> \<not> isNaN (scoreNumber (toScored s)))
     = (isNumber (score_percent s) \<and> score_percent s \<noteq> Number NaN)"
proof (cases "score_percent s")
  case (Number x)
  then show ?thesis by (cases x) (simp_all add: toScored_def scoreNumber_def)
qed (simp_all add: toScored_def scoreNumber_def)

lemma validScores_filter:
  "validScores rawScores
     = map toScored (filter (\<lambda>s. isNumber (score_percent s) \<and> score_percent s \<noteq> Number NaN) rawScores)"
  unfolding validScores_def filter_map o_def valid_toScored by (rule refl)

lemma finiteScore_iff:
  "\<not> infiniteScore v \<Longrightarrow> (isNumber v \<and> v \<noteq> Number NaN) = (finiteScore v \<noteq> None)"
proof (cases v)
  case (Number x)
  assume "\<not> infiniteScore v"
  with Number show ?thesis by (cases x) simp_all
qed simp_all

lemma validScores_finite:
  assumes "list_all (\<lambda>s. \<not> infiniteScore (score_percent s)) rawScores"
  shows "validScores rawScores
           = map toScored (filter (\<lambda>s. finiteScore (score_percent s) \<noteq> None) rawScores)"
proof -
  have "filter (\<lambda>s. isNumber (score_percent s) \<and> score_percent s \<noteq> Number NaN) rawScores
          = filter (\<lambda>s. finiteScore (score_percent s) \<noteq> None) rawScores"
    using assms by (intro filter_cong refl) (simp add: list_all_iff finiteScore_iff)
  then show ?thesis by (simp add: validScores_filter)
qed

lemma scoreNumber_finite:
  "finiteScore (score_percent s) = Some x \<Longrightarrow> scoreNumber (toScored s) = Fin x"
  by (cases "score_percent s" rule: finiteScore.cases) (simp_all add: toScored_def scoreNumber_def)

lemma scoresArray_counted: "scoresArray rawScores = countedScores rawScores"
proof -
  have "map scoreNumber
          (filter (\<lambda>s. score s \<noteq> None \<and> \<not> isNaN (scoreNumber s)) (map toScored xs))
        = List.map_filter (\<lambda>s. countedScore (score_percent s)) xs" for xs
  proof (induction xs)
    case (Cons s xs)
    show ?case
    proof (cases "score_percent s")
      case (Number x)
      with Cons show ?thesis
        by (cases x) (simp_all add: toScored_def scoreNumber_def List.map_filter_simps)
    qed (use Cons in \<open>simp_all add: toScored_def scoreNumber_def List.map_filter_simps\<close>)
  qed (simp add: List.map_filter_simps)
  then show ?thesis by (simp add: scoresArray_def validScores_def countedScores_def)
qed

lemma countedScores_finite:
  assumes "list_all (\<lambda>s. \<not> infiniteScore (score_percent s)) rawScores"
  shows "countedScores rawScores = map Fin (numericScores rawScores)"
  using assms
proof (induction rawScores)
  case (Cons s xs)
  show ?case
  proof (cases "score_percent s")
    case (Number x)
    with Cons show ?thesis
      by (cases x) (simp_all add: countedScores_def numericScores_def List.map_filter_simps)
  qed (use Cons in \<open>simp_all add: countedScores_def numericScores_def List.map_filter_simps\<close>)
qed (simp add: countedScores_def numericScores_def List.map_filter_simps)

lemma scoresArray_finite:
  assumes "list_all (\<lambda>s. \<not> infiniteScore (score_percent s)) rawScores"
  shows "scoresArray rawScores = map Fin (numericScores rawScores)"
  by (simp add: scoresArray_counted countedScores_finite [OF assms])

text \<open>Whole numbers add up without rounding while the sum stays within \<open>2^53\<close>.\<close>

lemma foldl_js_add_whole:
  "a + sum_list ns \<le> 2 ^ 53 \<Longrightarrow>
     foldl js_add (Fin (of_nat a)) (map (\<lambda>n. Fin (of_nat n)) ns) = Fin (of_nat (a + sum_list ns))"
proof (induction ns arbitrary: a)
  case (Cons n ns)
  have le: "a + n \<le> 2 ^ 53" using Cons.prems by simp
  have "js_add (Fin (of_nat a)) (Fin (of_nat n)) = toDouble (of_nat (a + n))" by simp
  also have "\<dots> = Fin (of_nat (a + n))" using le by (rule toDouble_of_nat)
  finally have step: "js_add (Fin (of_nat a)) (Fin (of_nat n)) = Fin (of_nat (a + n))" .
  have "a + n + sum_list ns \<le> 2 ^ 53" using Cons.prems by simp
  from Cons.IH [OF this] show ?case by (simp only: list.map foldl_Cons step sum_list.Cons add.assoc)
qed simp

lemma sumReduce_whole:
  "sum_list ns \<le> 2 ^ 53 \<Longrightarrow> sumReduce (map (\<lambda>n. Fin (of_nat n)) ns) = Fin (of_nat (sum_list ns))"
  using foldl_js_add_whole [of 0 ns] by (simp add: sumReduce_def)

lemma mean_whole: "mean (map of_nat ns) = of_nat (sum_list ns) / of_nat (length ns)"
proof -
  have "sum_list (map of_nat xs) = (of_nat (sum_list xs) :: rat)" for xs
    by (induction xs) simp_all
  then show ?thesis by (simp add: mean_def)
qed

lemma average_whole:
  assumes "ns \<noteq> []" "sum_list ns \<le> 2 ^ 53"
  shows "js_div_length (sumReduce (map (\<lambda>n. Fin (of_nat n)) ns)) (length ns)
           = toDouble (mean (map of_nat ns))"
  using assms by (simp add: sumReduce_whole mean_whole)

text \<open>The digits that \<open>toFixed(2)\<close> prints.\<close>

lemma digitsOf_nonempty: "digitsOf n \<noteq> []"
  by (subst digitsOf.simps) simp

lemma digitsOf_lt10: "n < 10 \<Longrightarrow> digitsOf n = [digitChar n]"
  by (subst digitsOf.simps) simp

lemma digitsOf_ge10: "10 \<le> n \<Longrightarrow> digitsOf n = digitsOf (n div 10) @ [digitChar (n mod 10)]"
  by (subst digitsOf.simps) simp

lemma digitsOf_two_last:
  assumes "100 \<le> n"
  shows "digitsOf n = digitsOf (n div 100) @ [digitChar (n div 10 mod 10), digitChar (n mod 10)]"
proof -
  have a: "10 \<le> n" and b: "10 \<le> n div 10" using assms by arith+
  have "n div 10 div 10 = n div 100"
    by (simp add: div_mult2_eq [symmetric])
  then show ?thesis
    using digitsOf_ge10 [OF a] digitsOf_ge10 [OF b] by simp
qed

lemma fixed_digits:
  "(let m = digitsOf n;
        m = (if length m \<le> 2 then replicate (3 - length m) (CHR ''0'') @ m else m);
        k = length m - 2
    in take k m @ ''.'' @ drop k m)
   = digitsOf (n div 100) @ ''.'' @ [digitChar (n div 10 mod 10), digitChar (n mod 10)]"
proof -
  consider "n < 10" | "10 \<le> n" "n < 100" | "100 \<le> n" by linarith
  then show ?thesis
  proof cases
    case 1
    have z: "n div 100 = 0" "n div 10 = 0" "n mod 10 = n" using 1 by simp_all
    show ?thesis
      using digitsOf_lt10 [OF 1]
      by (simp add: Let_def z digitsOf_small digitChar_eval numeral_3_eq_3)
  next
    case 2
    have z: "n div 100 = 0" "n div 10 < 10" "n div 10 mod 10 = n div 10" using 2 by simp_all
    show ?thesis
      using digitsOf_ge10 [OF 2(1)] digitsOf_lt10 [OF z(2)]
      by (simp add: Let_def z digitsOf_small digitChar_eval)
  next
    case 3
    show ?thesis
      using digitsOf_nonempty [of "n div 100"]
      by (simp add: Let_def digitsOf_two_last [OF 3])
  qed
qed

lemma toFixed2_two_decimals:
  assumes "\<bar>q\<bar> < 10 ^ 21"
  shows "toFixed2 nts (Fin q)
           = (if q < 0 then ''-'' else []) @ digitsOf (hundredths q div 100) @ ''.''
             @ [digitChar (hundredths q div 10 mod 10), digitChar (hundredths q mod 10)]"
proof -
  have "\<not> 10 ^ 21 \<le> \<bar>q\<bar>" using assms by simp
  then show ?thesis
    using fixed_digits [of "hundredths q"]
    by (simp add: toFixed2_def hundredths_def Let_def)
qed

text \<open>The average and the groups of the extremes.\<close>

lemma validScores_drop_unscored:
  "validScores (filter (\<lambda>s. isNumber (score_percent s)) rawScores) = validScores rawScores"
proof -
  have "filter (\<lambda>s. isNumber (score_percent s) \<and> score_percent s \<noteq> Number NaN)
          (filter (\<lambda>s. isNumber (score_percent s)) rawScores)
        = filter (\<lambda>s. isNumber (score_percent s) \<and> score_percent s \<noteq> Number NaN) rawScores"
    by (induction rawScores) auto
  then show ?thesis by (simp add: validScores_filter)
qed

lemma average_counted:
  "average nts rawScores
     = (if countedScores rawScores = [] then ''N/A''
        else toFixed2 nts (js_div_length (sumReduce (countedScores rawScores))
                                         (length (countedScores rawScores))))"
  by (simp add: average_def scoresArray_counted)


text \<open>
  C1, as amended. The average computed by \<open>downloadExcel\<close> is the literal
  \<open>N/A\<close> when no record has a number other than NaN for a score, and otherwise
  \<open>toFixed(2)\<close> of the mean of exactly those scores as double arithmetic
  computes it: the scores added from 0 in their order, each sum rounded to a
  double, and the total divided by their count and rounded again. When that
  mean is finite and below \<open>10^21\<close> the text is its sign, its integer digits, a
  point and two decimals, the nearest hundredth of the computed double. For
  whole-number scores that add up to at most \<open>2^53\<close> the computed mean is the
  double nearest to the arithmetic mean. Dropping the records without a number
  changes neither the average nor the highest and lowest groups. (On an empty
  array \<open>downloadExcel\<close> returns before it computes anything.)
\<close>

theorem excel_average:
  "(let arr = countedScores rawScores;
        avg = js_div_length (sumReduce arr) (length arr) in
      average nts rawScores = (if arr = [] then ''N/A'' else toFixed2 nts avg)
    \<and> (\<forall>d. arr \<noteq> [] \<and> avg = Fin d \<and> \<bar>d\<bar> < 10 ^ 21 \<longrightarrow>
          average nts rawScores
            = (if d < 0 then ''-'' else []) @ digitsOf (hundredths d div 100) @ ''.''
              @ [digitChar (hundredths d div 10 mod 10), digitChar (hundredths d mod 10)])
    \<and> (\<forall>ns. ns \<noteq> [] \<and> arr = map (\<lambda>n. Fin (of_nat n)) ns \<and> sum_list ns \<le> 2 ^ 53 \<longrightarrow>
          avg = toDouble (mean (map of_nat ns)))
    \<and> downloadExcel nts rawScores
        = (if rawScores = [] then None
           else Some \<lparr>statAverage = average nts rawScores,
                      statCount = length arr,
                      statMax = maxScore rawScores,
                      statHighest = highestStudents rawScores,
                      statMin = minScore rawScores,
                      statLowest = lowestStudents rawScores\<rparr>))
   \<and> average nts (filter (\<lambda>s. isNumber (score_percent s)) rawScores) = average nts rawScores
   \<and> highestStudents (filter (\<lambda>s. isNumber (score_percent s)) rawScores)
       = highestStudents rawScores
   \<and> lowestStudents (filter (\<lambda>s. isNumber (score_percent s)) rawScores)
       = lowestStudents rawScores"
proof -
  let ?arr = "countedScores rawScores"
  let ?avg = "js_div_length (sumReduce ?arr) (length ?arr)"
  have len: "length (validScores rawScores) = length ?arr"
    using scoresArray_counted [of rawScores] by (metis length_map scoresArray_def)
  have two: "average nts rawScores
               = (if d < 0 then ''-'' else []) @ digitsOf (hundredths d div 100) @ ''.''
                 @ [digitChar (hundredths d div 10 mod 10), digitChar (hundredths d mod 10)]"
    if "?arr \<noteq> [] \<and> ?avg = Fin d \<and> \<bar>d\<bar> < 10 ^ 21" for d
  proof -
    from that have "average nts rawScores = toFixed2 nts (Fin d)"
      by (simp add: average_counted)
    with that show ?thesis by (simp only: toFixed2_two_decimals)
  qed
  have whole: "?avg = toDouble (mean (map of_nat ns))"
    if "ns \<noteq> [] \<and> ?arr = map (\<lambda>n. Fin (of_nat n)) ns \<and> sum_list ns \<le> 2 ^ 53" for ns
    using that average_whole [of ns] by simp
  have drop: "scoresArray (filter (\<lambda>s. isNumber (score_percent s)) rawScores) = scoresArray rawScores"
    by (simp add: scoresArray_def validScores_drop_unscored)
  show ?thesis
    unfolding Let_def
    apply (intro conjI allI impI)
    subgoal by (rule average_counted)
    subgoal for d by (rule two)
    subgoal for ns by (rule whole)
    subgoal by (simp add: downloadExcel_def len)
    subgoal by (simp add: average_def drop)
    subgoal by (simp add: highestStudents_def maxScore_def drop validScores_drop_unscored)
    subgoal by (simp add: lowestStudents_def minScore_def drop validScores_drop_unscored)
    done
qed

lemma toDouble_70: "toDouble 70 = Fin 70"
  using toDouble_of_nat [of 70] by simp

theorem excel_average_witness:
  "countedScores mixedScores = map (\<lambda>n. Fin (of_nat n)) [100, 40]
     \<and> sum_list [100, 40 :: nat] \<le> 2 ^ 53
     \<and> mean (map of_nat [100, 40 :: nat]) = 70
     \<and> average integerPart mixedScores = ''70.00''"
proof -
  have c: "countedScores mixedScores = map (\<lambda>n. Fin (of_nat n)) [100, 40]"
    by (simp add: countedScores_def mixedScores_def plainRecord_def List.map_filter_simps)
  have m: "mean (map of_nat [100, 40 :: nat]) = 70" by (simp add: mean_def)
  have f: "toFixed2 integerPart (Fin 70) = ''70.00''"
    by (simp add: toFixed2_def eval_digits)
  note t = excel_average [of mixedScores integerPart, unfolded Let_def]
  from t have 1: "average integerPart mixedScores
      = (if countedScores mixedScores = [] then ''N/A''
         else toFixed2 integerPart (js_div_length (sumReduce (countedScores mixedScores))
                                                     (length (countedScores mixedScores))))"
    by blast
  from t have 3: "[100, 40] \<noteq> [] \<and> countedScores mixedScores = map (\<lambda>n. Fin (of_nat n)) [100, 40]
        \<and> sum_list [100, 40 :: nat] \<le> 2 ^ 53 \<longrightarrow>
      js_div_length (sumReduce (countedScores mixedScores)) (length (countedScores mixedScores))
        = toDouble (mean (map of_nat [100, 40 :: nat]))"
    by blast
  have "js_div_length (sumReduce (countedScores mixedScores)) (length (countedScores mixedScores))
          = toDouble (mean (map of_nat [100, 40 :: nat]))"
    by (rule 3 [THEN mp]) (simp add: c)
  then have "js_div_length (sumReduce (countedScores mixedScores))
               (length (countedScores mixedScores)) = Fin 70"
    by (simp only: m toDouble_70)
  moreover have "countedScores mixedScores \<noteq> []" by (simp add: c)
  ultimately have "average integerPart mixedScores = ''70.00''"
    using 1 f by simp
  with c m show ?thesis by simp
qed

text \<open>
  The printed average is not always the nearest hundredth of the arithmetic
  mean: the scores 0.375, 0, 0, 0, 0 have the mean 0.075, which is 0.08 to the
  nearest hundredth (a tie going up), and the code prints 0.07, the double
  nearest to 0.075 being below it.
\<close>

theorem excel_average_counterexample:
  "numericScores lowScores = [3 / 8, 0, 0, 0, 0]
     \<and> isDouble (3 / 8) \<and> isDouble 0
     \<and> mean (numericScores lowScores) = 3 / 40
     \<and> toFixed2 integerPart (Fin (3 / 40)) = ''0.08''
     \<and> average integerPart lowScores = ''0.07''"
proof -
  have n: "numericScores lowScores = [3 / 8, 0, 0, 0, 0]"
    by (simp add: numericScores_def lowScores_def plainRecord_def List.map_filter_simps)
  have c: "countedScores lowScores = [Fin (3 / 8), Fin 0, Fin 0, Fin 0, Fin 0]"
    by (simp add: countedScores_def lowScores_def plainRecord_def List.map_filter_simps)
  have d: "toDouble (3 / 8) = Fin (3 / 8)" by (simp add: eval_double)
  have z: "toDouble 0 = Fin 0" by (simp add: toDouble_def)
  have q: "toDouble (3 / 40) = Fin (5404319552844595 / 72057594037927936)"
    by (simp add: eval_double)
  have s: "sumReduce (countedScores lowScores) = Fin (3 / 8)"
    by (simp add: c sumReduce_def d)
  have a: "js_div_length (sumReduce (countedScores lowScores)) (length (countedScores lowScores))
             = Fin (5404319552844595 / 72057594037927936)"
    unfolding s by (simp add: c q)
  have f: "toFixed2 integerPart (Fin (5404319552844595 / 72057594037927936)) = ''0.07''"
    by (simp add: toFixed2_def eval_digits)
  have g: "toFixed2 integerPart (Fin (3 / 40)) = ''0.08''"
    by (simp add: toFixed2_def eval_digits)
  have "countedScores lowScores \<noteq> []" by (simp add: c)
  then have "average integerPart lowScores = ''0.07''"
    unfolding average_counted a f by simp
  with n d z g show ?thesis by (simp add: isDouble_def mean_def)
qed


lemma halfway_less: "halfwayBelowTolerance < 1 / 100"
  by (simp add: halfwayBelowTolerance_def)

lemma near_within:
  "finiteScore (score_percent s) = Some x \<Longrightarrow>
     js_less (js_abs (js_sub (Fin x) (Fin m))) tolerance = withinOf m s"
  using near_iff [of "x - m"] by (simp add: withinOf_def js_sub_def halfwayBelowTolerance_def)

lemma extreme_group:
  assumes "list_all (\<lambda>s. \<not> infiniteScore (score_percent s)) rawScores"
  shows "filter (\<lambda>s. js_less (js_abs (js_sub (scoreNumber s) (Fin m))) tolerance)
           (validScores rawScores)
         = map toScored (filter (withinOf m) rawScores)"
proof -
  have "filter (\<lambda>s. js_less (js_abs (js_sub (scoreNumber (toScored s)) (Fin m))) tolerance)
          (filter (\<lambda>s. finiteScore (score_percent s) \<noteq> None) xs)
        = filter (withinOf m) xs" for xs
  proof (induction xs)
    case (Cons s xs)
    show ?case
    proof (cases "finiteScore (score_percent s)")
      case None
      with Cons show ?thesis by (simp add: withinOf_def)
    next
      case (Some x)
      with Cons show ?thesis
        by (simp add: scoreNumber_finite [OF Some] near_within [OF Some])
    qed
  qed simp
  then show ?thesis
    by (simp add: validScores_finite [OF assms] filter_map o_def)
qed

lemma maxScore_finite:
  assumes "list_all (\<lambda>s. \<not> infiniteScore (score_percent s)) rawScores"
      and "numericScores rawScores \<noteq> []"
  shows "maxScore rawScores = Some (Fin (Max (set (numericScores rawScores))))"
  using assms(2) by (simp add: maxScore_def scoresArray_finite [OF assms(1)] Math_max_Fin)

lemma minScore_finite:
  assumes "list_all (\<lambda>s. \<not> infiniteScore (score_percent s)) rawScores"
      and "numericScores rawScores \<noteq> []"
  shows "minScore rawScores = Some (Fin (Min (set (numericScores rawScores))))"
  using assms(2) by (simp add: minScore_def scoresArray_finite [OF assms(1)] Math_min_Fin)

lemma highestStudents_finite:
  assumes "list_all (\<lambda>s. \<not> infiniteScore (score_percent s)) rawScores"
      and "numericScores rawScores \<noteq> []"
  shows "highestStudents rawScores
           = map toScored (filter (withinOf (Max (set (numericScores rawScores)))) rawScores)"
  by (simp add: highestStudents_def maxScore_finite [OF assms] extreme_group [OF assms(1)])

lemma lowestStudents_finite:
  assumes "list_all (\<lambda>s. \<not> infiniteScore (score_percent s)) rawScores"
      and "numericScores rawScores \<noteq> []"
  shows "lowestStudents rawScores
           = map toScored (filter (withinOf (Min (set (numericScores rawScores)))) rawScores)"
  by (simp add: lowestStudents_def minScore_finite [OF assms] extreme_group [OF assms(1)])

lemma withinOf_less:
  "withinOf m s \<Longrightarrow> \<exists>x. finiteScore (score_percent s) = Some x \<and> \<bar>x - m\<bar> < 1 / 100"
  using halfway_less by (auto simp: withinOf_def split: option.splits)

text \<open>
  C2, as amended. Over a collection with finite numeric scores, at least one
  of them, the highest group is exactly the records whose score lies at most
  \<open>halfwayBelowTolerance\<close> from the maximum, in their order, and the lowest
  group exactly those at most that far from the minimum: the code compares the
  difference, rounded to a double, with the double nearest to 0.01, and
  \<open>halfwayBelowTolerance\<close> is the greatest difference that rounds below it.
  Every record that attains the maximum (minimum) is listed, and every record
  listed is less than 0.01 from it. With the scores 92.00, 92.005 and 40, the
  first two form the highest group.
\<close>

theorem excel_extremes:
  assumes "list_all (\<lambda>s. \<not> infiniteScore (score_percent s)) rawScores"
      and "numericScores rawScores \<noteq> []"
  shows "(let hi = Max (set (numericScores rawScores));
              lo = Min (set (numericScores rawScores)) in
          maxScore rawScores = Some (Fin hi)
        \<and> highestStudents rawScores = map toScored (filter (withinOf hi) rawScores)
        \<and> minScore rawScores = Some (Fin lo)
        \<and> lowestStudents rawScores = map toScored (filter (withinOf lo) rawScores)
        \<and> (\<forall>s \<in> set rawScores. finiteScore (score_percent s) = Some hi
               \<longrightarrow> toScored s \<in> set (highestStudents rawScores))
        \<and> (\<forall>s \<in> set rawScores. finiteScore (score_percent s) = Some lo
               \<longrightarrow> toScored s \<in> set (lowestStudents rawScores))
        \<and> (\<forall>s \<in> set rawScores. \<forall>x. finiteScore (score_percent s) = Some x \<longrightarrow>
               (withinOf hi s \<longleftrightarrow> js_less (js_abs (js_sub (Fin x) (Fin hi))) tolerance)
             \<and> (withinOf lo s \<longleftrightarrow> js_less (js_abs (js_sub (Fin x) (Fin lo))) tolerance)
             \<and> (withinOf hi s \<longrightarrow> \<bar>x - hi\<bar> < 1 / 100)
             \<and> (withinOf lo s \<longrightarrow> \<bar>x - lo\<bar> < 1 / 100)))"
proof -
  let ?xs = "numericScores rawScores"
  note mx = maxScore_finite [OF assms] and mn = minScore_finite [OF assms]
    and hi = highestStudents_finite [OF assms] and lo = lowestStudents_finite [OF assms]
  have tie: "withinOf m s" if "finiteScore (score_percent s) = Some m" for m s
    using that by (simp add: withinOf_def halfwayBelowTolerance_def)
  have less: "\<bar>x - m\<bar> < 1 / 100"
    if "finiteScore (score_percent s) = Some x" "withinOf m s" for m s x
    using withinOf_less [OF that(2)] that(1) by simp
  show ?thesis
    unfolding Let_def
    apply (intro conjI ballI impI allI)
    subgoal by (rule mx)
    subgoal by (rule hi)
    subgoal by (rule mn)
    subgoal by (rule lo)
    subgoal for s by (simp add: hi tie)
    subgoal for s by (simp add: lo tie)
    subgoal for s x by (simp add: near_within)
    subgoal for s x by (simp add: near_within)
    subgoal for s x by (rule less)
    subgoal for s x by (rule less)
    done
qed

lemma double_92005: "toDouble (809284538508247 / 2 ^ 43) = Fin (809284538508247 / 2 ^ 43)"
  by (simp add: eval_double)

theorem excel_extremes_witness:
  "list_all (\<lambda>s. \<not> infiniteScore (score_percent s)) tiedScores
     \<and> numericScores tiedScores = [92, 809284538508247 / 2 ^ 43, 40]
     \<and> isDouble (809284538508247 / 2 ^ 43)
     \<and> map scoredName (highestStudents tiedScores) = [''a'', ''b'']
     \<and> map scoredName (lowestStudents tiedScores) = [''d'']"
proof -
  have a: "list_all (\<lambda>s. \<not> infiniteScore (score_percent s)) tiedScores"
    by (simp add: tiedScores_def plainRecord_def)
  have n: "numericScores tiedScores = [92, 809284538508247 / 2 ^ 43, 40]"
    by (simp add: numericScores_def tiedScores_def plainRecord_def List.map_filter_simps)
  have ne: "numericScores tiedScores \<noteq> []" by (simp add: n)
  note t = excel_extremes [OF a ne, unfolded Let_def]
  from t have h: "highestStudents tiedScores
      = map toScored (filter (withinOf (Max (set (numericScores tiedScores)))) tiedScores)"
    by blast
  from t have l: "lowestStudents tiedScores
      = map toScored (filter (withinOf (Min (set (numericScores tiedScores)))) tiedScores)"
    by blast
  have mx: "Max (set (numericScores tiedScores)) = 809284538508247 / 2 ^ 43" by (simp add: n)
  have mn: "Min (set (numericScores tiedScores)) = 40" by (simp add: n)
  have "map scoredName (highestStudents tiedScores) = [''a'', ''b'']"
    unfolding h mx
    by (simp add: tiedScores_def plainRecord_def withinOf_def halfwayBelowTolerance_def
          toScored_def orDefault_def)
  moreover have "map scoredName (lowestStudents tiedScores) = [''d'']"
    unfolding l mn
    by (simp add: tiedScores_def plainRecord_def withinOf_def halfwayBelowTolerance_def
          toScored_def orDefault_def)
  ultimately show ?thesis using a n double_92005 by (simp add: isDouble_def)
qed

text \<open>
  A record less than 0.01 from the maximum that the highest group leaves out:
  of the doubles nearest to 0.0101 and to 0.0001, whose difference is below
  0.01, each is alone in its group, because the difference rounds to the
  double nearest to 0.01.
\<close>

theorem excel_extremes_counterexample:
  "numericScores closeScores = [5822253598264577 / 2 ^ 59, 7378697629483821 / 2 ^ 66]
     \<and> isDouble (5822253598264577 / 2 ^ 59) \<and> isDouble (7378697629483821 / 2 ^ 66)
     \<and> maxScore closeScores = Some (Fin (5822253598264577 / 2 ^ 59))
     \<and> minScore closeScores = Some (Fin (7378697629483821 / 2 ^ 66))
     \<and> \<bar>7378697629483821 / 2 ^ 66 - 5822253598264577 / 2 ^ 59 :: rat\<bar> < 1 / 100
     \<and> js_sub (Fin (5822253598264577 / 2 ^ 59)) (Fin (7378697629483821 / 2 ^ 66)) = tolerance
     \<and> map scoredName (highestStudents closeScores) = [''a'']
     \<and> map scoredName (lowestStudents closeScores) = [''b'']"
proof -
  have a: "list_all (\<lambda>s. \<not> infiniteScore (score_percent s)) closeScores"
    by (simp add: closeScores_def plainRecord_def)
  have n: "numericScores closeScores = [5822253598264577 / 2 ^ 59, 7378697629483821 / 2 ^ 66]"
    by (simp add: numericScores_def closeScores_def plainRecord_def List.map_filter_simps)
  have ne: "numericScores closeScores \<noteq> []" by (simp add: n)
  have mx: "Max (set (numericScores closeScores)) = 5822253598264577 / 2 ^ 59" by (simp add: n)
  have mn: "Min (set (numericScores closeScores)) = 7378697629483821 / 2 ^ 66" by (simp add: n)
  have d1: "isDouble (5822253598264577 / 2 ^ 59)" by (simp add: isDouble_def eval_double)
  have d2: "isDouble (7378697629483821 / 2 ^ 66)" by (simp add: isDouble_def eval_double)
  have s: "js_sub (Fin (5822253598264577 / 2 ^ 59)) (Fin (7378697629483821 / 2 ^ 66)) = tolerance"
    by (simp add: js_sub_def tolerance_eval) (simp add: eval_double)
  have h: "map scoredName (highestStudents closeScores) = [''a'']"
    unfolding highestStudents_finite [OF a ne] mx
    by (simp add: closeScores_def plainRecord_def withinOf_def halfwayBelowTolerance_def
          toScored_def orDefault_def)
  have l: "map scoredName (lowestStudents closeScores) = [''b'']"
    unfolding lowestStudents_finite [OF a ne] mn
    by (simp add: closeScores_def plainRecord_def withinOf_def halfwayBelowTolerance_def
          toScored_def orDefault_def)
  have m1: "maxScore closeScores = Some (Fin (5822253598264577 / 2 ^ 59))"
    using maxScore_finite [OF a ne] by (simp only: mx)
  have m2: "minScore closeScores = Some (Fin (7378697629483821 / 2 ^ 66))"
    using minScore_finite [OF a ne] by (simp only: mn)
  have lt: "\<bar>7378697629483821 / 2 ^ 66 - 5822253598264577 / 2 ^ 59 :: rat\<bar> < 1 / 100" by simp
  from n d1 d2 m1 m2 lt s h l show ?thesis by blast
qed

text \<open>
  Why the scores are taken finite: the difference of an infinite score and
  itself is NaN, so a collection whose extreme is infinite has nobody in the
  group of that extreme.
\<close>

lemma infinite_extreme:
  "highestStudents [plainRecord n (Number PInf)] = []"
  "lowestStudents [plainRecord n (Number NInf)] = []"
  by (simp_all add: highestStudents_def lowestStudents_def maxScore_def minScore_def
        scoresArray_def validScores_def toScored_def scoreNumber_def plainRecord_def
        Math_max_def Math_min_def js_sub_def)


section \<open>Records of the score extractor\<close>

lemma indexOf_ge: "- 1 \<le> indexOf s p"
  by (induction s) (auto simp: Let_def)

lemma indexOf_Cons_absent:
  "indexOf (c # cs) p = - 1 \<longleftrightarrow> \<not> startsWith (c # cs) p \<and> indexOf cs p = - 1"
  using indexOf_ge [of cs p] by (auto simp: Let_def)

lemma not_includes_Cons:
  "\<not> includesStr (c # cs) p \<longleftrightarrow> \<not> startsWith (c # cs) p \<and> \<not> includesStr cs p"
  by (simp add: includesStr_def indexOf_Cons_absent del: indexOf.simps)

lemma not_includes_ConsD:
  assumes "\<not> includesStr (c # cs) p"
  shows "\<not> startsWith (c # cs) p" and "\<not> includesStr cs p"
  using assms not_includes_Cons by blast+

lemma set_map_filter_iff: "y \<in> set (List.map_filter f xs) \<longleftrightarrow> (\<exists>x \<in> set xs. f x = Some y)"
  by (induction xs) (auto split: option.splits)

lemma fileMatch_absent: "\<not> includesStr s ''File:'' \<Longrightarrow> fileMatch least b s = None"
proof (induction s arbitrary: b)
  case Nil
  then show ?case by simp
next
  case (Cons c cs)
  from not_includes_ConsD [OF Cons.prems] Cons.IH
  show ?case by (simp del: startsWith.simps)
qed

lemma feedbackMatches_absent: "\<not> includesStr s ''Feedback:'' \<Longrightarrow> feedbackMatches s = []"
proof (induction s)
  case Nil
  then show ?case by simp
next
  case (Cons c cs)
  from not_includes_ConsD [OF Cons.prems] Cons.IH
  show ?case by (simp add: feedbackAt_def del: startsWith.simps)
qed

lemma sectionFilename_absent: "\<not> includesStr section ''File:'' \<Longrightarrow> sectionFilename section = ''Unknown''"
  by (simp add: sectionFilename_def fileMatch_absent)

lemma sectionReasoning_absent: "\<not> includesStr section ''Feedback:'' \<Longrightarrow> sectionReasoning section = []"
  by (simp add: sectionReasoning_def feedbackMatches_absent)

lemma sectionRecord_Some:
  "sectionRecord section = Some r \<longleftrightarrow>
     sectionFilename section \<noteq> []
     \<and> (sectionScore section \<noteq> None \<or> sectionReasoning section \<noteq> [])
     \<and> r = \<lparr>name = Some (sectionFilename section),
              score_percent = (case sectionScore section of Some x \<Rightarrow> Number x | None \<Rightarrow> String ''-''),
              reasoning = Some (if sectionReasoning section \<noteq> [] then sectionReasoning section
                                else ''Evaluation completed''),
              details = []\<rparr>"
  by (auto simp: sectionRecord_def Let_def)

lemma extractPPTScores_records:
  "r \<in> set (extractPPTScores v) \<longleftrightarrow>
     (\<exists>section \<in> set (splitPPTFileSections v). sectionRecord section = Some r)"
proof (cases v)
  case (String result)
  then show ?thesis by (cases "result = []") (auto simp: set_map_filter_iff)
qed simp_all

text \<open>The score of a section, and the example scenario.\<close>

lemma sectionScore_values:
  "sectionScore section
     = (if markerValues section = [] then None
        else Some (js_div_length
                     (sumReduce (map (\<lambda>n. toDouble (of_nat n)) (markerValues section)))
                     (length (markerValues section))))"
  by (cases "scoreMatch ''Content Quality Score:'' section";
      cases "scoreMatch ''Structure Score:'' section";
      cases "scoreMatch ''Alignment Score:'' section")
     (simp_all add: sectionScore_def markerValues_def parseInt_def List.map_filter_simps)

lemma map_toDouble_whole:
  assumes "sum_list ns \<le> 2 ^ 53"
  shows "map (\<lambda>n. toDouble (of_nat n)) ns = map (\<lambda>n. Fin (of_nat n)) ns"
proof (rule map_cong [OF refl])
  fix n assume "n \<in> set ns"
  then have "n \<le> sum_list ns" by (simp add: member_le_sum_list)
  with assms have "n \<le> 2 ^ 53" by simp
  then show "toDouble (of_nat n) = Fin (of_nat n)" by (rule toDouble_of_nat)
qed

lemma sectionScore_whole:
  assumes "markerValues section \<noteq> []" "sum_list (markerValues section) \<le> 2 ^ 53"
  shows "sectionScore section = Some (toDouble (mean (map of_nat (markerValues section))))"
  using assms average_whole [OF assms]
  by (simp add: sectionScore_values map_toDouble_whole)

lemma markerValues_length: "length (markerValues section) \<le> 3"
  by (simp add: markerValues_def List.map_filter_simps split: option.splits)

text \<open>A number from 0 up and below \<open>2^1023\<close> rounds to a finite number from 0 up.\<close>

lemma toDouble_finite:
  assumes "0 \<le> q" "q < pow2 1023"
  shows "\<exists>r\<ge>0. toDouble q = Fin r"
proof (cases "q = 0")
  case True
  then show ?thesis by (simp add: toDouble_def)
next
  case False
  with assms have q: "0 < q" by simp
  define e where "e = max (binaryExponent q) (- 1022)"
  have "pow2 (binaryExponent q) < pow2 1023"
    using binaryExponent_bounds [OF q] assms(2) by linarith
  then have "binaryExponent q < 1023" by (rule pow2_less_imp)
  then have "e + 1 \<le> 1023" by (simp add: e_def)
  then have "pow2 (e + 1) \<le> pow2 1023" by (rule pow2_mono)
  moreover have "pow2 1023 < pow2 1024" by (simp add: pow2_def)
  moreover from toDouble_between [OF q e_def]
  obtain r where r: "toDouble q = (if pow2 1024 \<le> r then PInf else Fin r)" "0 \<le> r"
    "r \<le> pow2 (e + 1)" by blast
  ultimately have "\<not> pow2 1024 \<le> r" by linarith
  with r show ?thesis by auto
qed

lemma mean_whole_bounds:
  assumes "ns \<noteq> []" "sum_list ns \<le> 2 ^ 53"
  shows "0 \<le> mean (map of_nat ns)" "mean (map of_nat ns) < pow2 1023"
proof -
  let ?s = "of_nat (sum_list ns) :: rat" and ?n = "of_nat (length ns) :: rat"
  have n: "1 \<le> ?n" using assms(1) by (cases ns) simp_all
  have s: "0 \<le> ?s" by simp
  show "0 \<le> mean (map of_nat ns)" by (simp add: mean_whole)
  have "?s / ?n \<le> ?s" using n s by (simp add: divide_le_eq mult_le_cancel_left1)
  moreover have "?s \<le> 2 ^ 53" using of_nat_mono [OF assms(2), where ?'a = rat] by simp
  moreover have "(2::rat) ^ 53 < pow2 1023" by (simp add: pow2_def)
  ultimately show "mean (map of_nat ns) < pow2 1023" by (simp add: mean_whole)
qed

text \<open>The numbers the extractor computes are never negative and never NaN.\<close>

lemma notNegative_toDouble: "0 \<le> q \<Longrightarrow> notNegative (toDouble q)"
  using toDouble_nonneg [of q] by auto

lemma notNegative_add: "notNegative x \<Longrightarrow> notNegative y \<Longrightarrow> notNegative (js_add x y)"
  by (cases x; cases y) (simp_all add: notNegative_toDouble)

lemma notNegative_foldl:
  "notNegative a \<Longrightarrow> list_all notNegative xs \<Longrightarrow> notNegative (foldl js_add a xs)"
  by (induction xs arbitrary: a) (simp_all add: notNegative_add)

lemma notNegative_div: "notNegative x \<Longrightarrow> 0 < n \<Longrightarrow> notNegative (js_div_length x n)"
  by (cases x) (simp_all add: notNegative_toDouble)

lemma notNegative_score:
  "ns \<noteq> [] \<Longrightarrow>
     notNegative (js_div_length (sumReduce (map (\<lambda>n. toDouble (of_nat n)) ns)) (length ns))"
  by (intro notNegative_div) (simp_all add: sumReduce_def notNegative_foldl list_all_iff notNegative_toDouble)

lemma notNegative_cases: "notNegative x \<longleftrightarrow> x = PInf \<or> (\<exists>q\<ge>0. x = Fin q)"
  by (cases x) simp_all

lemma ex_split: "splitPPTFileSections (String exampleText) = [exampleText]"
  by code_simp

lemma ex_values: "markerValues exampleText = [80, 60]"
  by code_simp

lemma ex_reasoning: "sectionReasoning exampleText = ''Good structure''"
  by code_simp

lemma ex_filename: "sectionFilename exampleText = ''quiz1.pptx''"
  by code_simp

lemma ex_nonempty: "exampleText \<noteq> []"
  by code_simp

lemma ex_mean: "mean (map of_nat (markerValues exampleText)) = 70"
  by (simp add: ex_values mean_def)

lemma ex_score: "sectionScore exampleText = Some (Fin 70)"
proof -
  have "sectionScore exampleText = Some (toDouble (mean (map of_nat (markerValues exampleText))))"
    by (rule sectionScore_whole) (simp_all add: ex_values)
  then show ?thesis by (simp only: ex_mean toDouble_70)
qed

lemma ex_record:
  "sectionRecord exampleText = Some \<lparr>name = Some ''quiz1.pptx'', score_percent = Number (Fin 70),
     reasoning = Some ''Good structure'', details = []\<rparr>"
  by (simp add: sectionRecord_def Let_def ex_score ex_reasoning ex_filename)

lemma ex_extract:
  "extractPPTScores (String exampleText) = [\<lparr>name = Some ''quiz1.pptx'', score_percent = Number (Fin 70),
     reasoning = Some ''Good structure'', details = []\<rparr>]"
  using ex_nonempty by (simp add: ex_split ex_record List.map_filter_simps del: splitPPTFileSections.simps)


section \<open>The loop of the section splitter\<close>

lemma parts_nonblank: "p \<in> set (parts text) \<Longrightarrow> trim p \<noteq> []"
  by (simp add: parts_def)

lemma extractedFilename_Nil: "extractedFilename [] = None"
  by (simp add: extractedFilename_def)

lemma isMainFileHeader_Nil: "\<not> isMainFileHeader []"
  by (simp add: isMainFileHeader_def)

lemma processPart_current:
  "trim p \<noteq> [] \<Longrightarrow> currentFile (processPart st p) \<noteq> []"
  by (cases "whichArm st (trim p)") (simp_all add: processPart_def Let_def)

lemma wellFormed_initial: "wellFormed initial"
  by (simp add: wellFormed_def initial_def)

lemma wellFormed_processPart: "wellFormed st \<Longrightarrow> wellFormed (processPart st p)"
  by (cases "whichArm st (trim p)")
     (auto simp: processPart_def Let_def wellFormed_def whichArm_def flush_def
        extractedFilename_Nil isMainFileHeader_Nil orEmpty_def truthy_def split: if_splits)

lemma wellFormed_foldl: "wellFormed st \<Longrightarrow> wellFormed (foldl processPart st ps)"
  by (induction ps arbitrary: st) (simp_all add: wellFormed_processPart)

lemma foldl_current:
  "currentFile st \<noteq> [] \<Longrightarrow> \<forall>p \<in> set ps. trim p \<noteq> [] \<Longrightarrow>
     currentFile (foldl processPart st ps) \<noteq> []"
  by (induction ps arbitrary: st) (simp_all add: processPart_current)

lemma loop_current:
  assumes "ps \<noteq> []" and "\<forall>p \<in> set ps. trim p \<noteq> []"
  shows "currentFile (foldl processPart st ps) \<noteq> []"
proof (cases ps)
  case Nil
  with assms show ?thesis by simp
next
  case (Cons p rest)
  with assms show ?thesis
    by (simp add: foldl_current processPart_current)
qed

lemma splitText_nonempty: "splitText text \<noteq> []"
  by (simp add: splitText_def Let_def)

lemma splitText_blank: "parts text = [] \<Longrightarrow> splitText text = [text]"
  by (simp add: splitText_def Let_def flush_def initial_def)

lemma splitText_flush:
  "parts text \<noteq> [] \<Longrightarrow>
     splitText text = flush (foldl processPart initial (parts text))
     \<and> currentFile (foldl processPart initial (parts text)) \<noteq> []"
  using loop_current [of "parts text" initial] parts_nonblank [of _ "text"]
  by (auto simp: splitText_def Let_def flush_def)

text \<open>A run without header blocks only appends.\<close>

lemma arm_without_header:
  "\<not> isMainFileHeader trimmed \<Longrightarrow> currentFile st \<noteq> [] \<Longrightarrow>
     whichArm st trimmed = SameFile \<or> whichArm st trimmed = Continuation"
  by (simp add: whichArm_def Let_def)

lemma processPart_without_header:
  "\<not> isMainFileHeader (trim p) \<Longrightarrow> currentFile st \<noteq> [] \<Longrightarrow>
     processPart st p = st\<lparr>currentFile := currentFile st @ [NL, NL] @ trim p\<rparr>"
  using arm_without_header [of "trim p" st] by (auto simp: processPart_def Let_def)

lemma foldl_without_header:
  "\<forall>p \<in> set ps. \<not> isMainFileHeader (trim p) \<Longrightarrow> currentFile st \<noteq> [] \<Longrightarrow>
     foldl processPart st ps
       = st\<lparr>currentFile := currentFile st @ concat (map (\<lambda>p. [NL, NL] @ trim p) ps)\<rparr>"
proof (induction ps arbitrary: st)
  case Nil
  then show ?case by simp
next
  case (Cons p ps)
  then show ?case by (simp add: processPart_without_header)
qed

lemma first_without_header:
  "\<not> isMainFileHeader (trim p) \<Longrightarrow>
     processPart initial p = \<lparr>fileSections = [], currentFile = trim p,
                               currentFilename = orEmpty (extractedFilename (trim p))\<rparr>"
  by (simp add: processPart_def Let_def whichArm_def initial_def)

lemma join_Cons: "join sep (x # xs) = x @ concat (map (\<lambda>y. sep @ y) xs)"
  by (induction xs arbitrary: x) simp_all

lemma splitText_without_header:
  assumes "parts text \<noteq> []" and "\<forall>p \<in> set (parts text). \<not> isMainFileHeader (trim p)"
  shows "splitText text = [trim (join [NL, NL] (map trim (parts text)))]"
proof (cases "parts text")
  case Nil
  with assms show ?thesis by simp
next
  case (Cons p ps)
  have p: "\<not> isMainFileHeader (trim p)" and ps: "\<forall>q \<in> set ps. \<not> isMainFileHeader (trim q)"
    using assms(2) Cons by simp_all
  have "trim p \<noteq> []" using parts_nonblank [of p "text"] Cons by simp
  then have "foldl processPart initial (parts text)
        = \<lparr>fileSections = [], currentFile = trim p @ concat (map (\<lambda>q. [NL, NL] @ trim q) ps),
           currentFilename = orEmpty (extractedFilename (trim p))\<rparr>"
    using foldl_without_header [OF ps, of "processPart initial p"]
    by (simp add: Cons first_without_header [OF p])
  then show ?thesis
    using splitText_flush [OF assms(1)]
    by (simp add: flush_def Cons join_Cons o_def)
qed

text \<open>Which blocks start a Section.\<close>

lemma starts_iff:
  "wellFormed st \<Longrightarrow>
     startsSection st trimmed \<longleftrightarrow>
       currentFile st = []
       \<or> (isMainFileHeader trimmed
           \<and> (currentFilename st = [] \<or> extractedFilename trimmed \<noteq> Some (currentFilename st)))"
  by (auto simp: startsSection_def whichArm_def Let_def wellFormed_def)

lemma flush_processPart:
  assumes "wellFormed st" and "trim p \<noteq> []"
  shows "length (flush (processPart st p))
           = length (flush st) + (if startsSection st (trim p) then 1 else 0)"
proof (cases "whichArm st (trim p)")
  case NewFile
  with assms show ?thesis
    by (simp add: processPart_def Let_def startsSection_def flush_def)
next
  case SameFile
  with assms have "currentFile st \<noteq> []"
    by (auto simp: whichArm_def Let_def wellFormed_def split: if_splits)
  with SameFile show ?thesis
    by (simp add: processPart_def Let_def startsSection_def flush_def)
next
  case FirstPart
  then have "currentFile st = []"
    by (auto simp: whichArm_def Let_def split: if_splits)
  with FirstPart assms show ?thesis
    by (simp add: processPart_def Let_def startsSection_def flush_def)
next
  case Continuation
  then have "currentFile st \<noteq> []"
    by (auto simp: whichArm_def Let_def split: if_splits)
  with Continuation show ?thesis
    by (simp add: processPart_def Let_def startsSection_def flush_def)
qed

lemma flush_foldl:
  "wellFormed st \<Longrightarrow> \<forall>p \<in> set ps. trim p \<noteq> [] \<Longrightarrow>
     length (flush (foldl processPart st ps)) = length (flush st) + countStarts st ps"
proof (induction ps arbitrary: st)
  case Nil
  then show ?case by simp
next
  case (Cons p ps)
  then show ?case
    by (simp add: wellFormed_processPart flush_processPart)
qed

lemma sections_counted:
  assumes "parts text \<noteq> []"
  shows "length (splitText text) = countStarts initial (parts text)"
proof -
  have "\<forall>p \<in> set (parts text). trim p \<noteq> []"
    by (simp add: parts_nonblank)
  from flush_foldl [OF wellFormed_initial this] splitText_flush [OF assms]
  show ?thesis by (simp add: flush_def initial_def)
qed

lemma startsWith_includes: "startsWith s p \<Longrightarrow> includesStr s p"
  by (cases s; cases p) (auto simp: includesStr_def)

lemma includes_longer: "\<not> includesStr s p \<Longrightarrow> \<not> includesStr s (c # p)"
proof (induction s)
  case Nil
  then show ?case by (simp add: includesStr_def)
next
  case (Cons a s)
  from not_includes_ConsD [OF Cons.prems] have n: "\<not> includesStr s p" by simp
  then have "\<not> startsWith s p" using startsWith_includes by blast
  with Cons.IH [OF n] show ?case
    by (simp add: not_includes_Cons del: indexOf.simps)
qed

lemma header_needs_total_slides:
  "\<not> includesStr trimmed ''Total Slides:'' \<Longrightarrow> \<not> isMainFileHeader trimmed"
  using includes_longer [of trimmed "''Total Slides:''" NL]
  by (simp add: isMainFileHeader_def Let_def)

lemma same_name_continues:
  "currentFilename st \<noteq> [] \<Longrightarrow> extractedFilename trimmed = Some (currentFilename st) \<Longrightarrow>
     whichArm st trimmed = SameFile"
  by (simp add: whichArm_def Let_def truthy_def)

lemma run_state:
  assumes "parts text = ps @ p # rest"
  shows "wellFormed (foldl processPart initial ps)"
    and "currentFile (foldl processPart initial ps) = [] \<longleftrightarrow> ps = []"
proof -
  show "wellFormed (foldl processPart initial ps)"
    by (rule wellFormed_foldl [OF wellFormed_initial])
  have "\<forall>q \<in> set ps. trim q \<noteq> []"
    using assms parts_nonblank [of _ "text"] by simp
  then show "currentFile (foldl processPart initial ps) = [] \<longleftrightarrow> ps = []"
    using loop_current [of ps initial] by (auto simp: initial_def)
qed

text \<open>
  C3, as amended. On the empty string the splitter returns the empty sequence,
  and on every non-empty string a non-empty one; the function is total, so
  nothing is raised. When the text holds no non-blank block, the entire text
  is the sole Section. When it holds blocks and none of them is a header, the
  sole Section is the trimmed blocks joined by one blank line: the content of
  the text, not always the text itself.
\<close>

theorem no_header_text:
  "splitPPTFileSections (String []) = []
   \<and> (text \<noteq> [] \<longrightarrow> splitPPTFileSections (String text) \<noteq> [])
   \<and> (text \<noteq> [] \<and> parts text = [] \<longrightarrow> splitPPTFileSections (String text) = [text])
   \<and> (parts text \<noteq> [] \<and> (\<forall>p \<in> set (parts text). \<not> isMainFileHeader (trim p))
        \<longrightarrow> splitPPTFileSections (String text) = [trim (join [NL, NL] (map trim (parts text)))])"
proof -
  have ne: "parts text \<noteq> [] \<Longrightarrow> text \<noteq> []"
    by (auto simp: parts_def trim_def)
  show ?thesis
    using splitText_nonempty [of "text"] splitText_blank [of "text"]
      splitText_without_header [of "text"] ne
    by (cases "text = []") auto
qed

theorem no_header_text_witness:
  "threeLineFeeds \<noteq> [] \<and> parts threeLineFeeds = [''a'', ''b'']
   \<and> \<not> isMainFileHeader (trim ''a'') \<and> \<not> isMainFileHeader (trim ''b'')
   \<and> splitPPTFileSections (String threeLineFeeds) = [''a'' @ [NL, NL] @ ''b'']"
proof -
  have a: "parts threeLineFeeds = [''a'', ''b'']" by code_simp
  have b: "\<not> isMainFileHeader (trim ''a'')" "\<not> isMainFileHeader (trim ''b'')" by code_simp+
  have c: "trim (join [NL, NL] (map trim (parts threeLineFeeds))) = ''a'' @ [NL, NL] @ ''b''"
    by code_simp
  have d: "threeLineFeeds \<noteq> []" by code_simp
  have "parts threeLineFeeds \<noteq> [] \<and> (\<forall>p \<in> set (parts threeLineFeeds). \<not> isMainFileHeader (trim p))"
    unfolding a using b by simp
  with no_header_text [of threeLineFeeds]
  have "splitPPTFileSections (String threeLineFeeds)
          = [trim (join [NL, NL] (map trim (parts threeLineFeeds)))]"
    by blast
  then have "splitPPTFileSections (String threeLineFeeds) = [''a'' @ [NL, NL] @ ''b'']"
    unfolding c .
  with a b d show ?thesis by blast
qed

text \<open>
  The claim as first stated returns the entire original text whenever no
  header opens a Section. A text of two blocks three line feeds apart has no
  header and comes back with two line feeds between the blocks.
\<close>

theorem no_header_text_counterexample:
  "parts threeLineFeeds = [''a'', ''b'']
   \<and> \<not> isMainFileHeader (trim ''a'') \<and> \<not> isMainFileHeader (trim ''b'')
   \<and> splitPPTFileSections (String threeLineFeeds) = [''a'' @ [NL, NL] @ ''b'']
   \<and> splitPPTFileSections (String threeLineFeeds) \<noteq> [threeLineFeeds]"
  by code_simp

text \<open>
  C4, as amended. In the loop over the non-blank blocks of a text, the first
  block always starts a Section. A later block starts a new Section exactly
  when it is a main file header and either no file name is current or its
  trimmed file name differs from the current one. A block is a main file
  header exactly when a line of it matches \<open>File:\<close> followed by white space
  and a name, it contains a line feed followed by \<open>Total Slides:\<close>, its first
  \<open>File:\<close> lies before its first \<open>Total Slides:\<close>, and that lies before the
  first evaluation marker, if there is one. So, after the first block, a
  block without \<open>Total Slides:\<close> never starts a Section, and a block whose file
  name is the current one is appended to the current Section. The Sections
  returned are as many as the blocks that start one.
\<close>

theorem block_starts_section:
  assumes "parts text = ps @ p # rest"
  shows "(let st = foldl processPart initial ps; trimmed = trim p in
          (startsSection st trimmed \<longleftrightarrow>
             ps = []
             \<or> (isMainFileHeader trimmed
                 \<and> (currentFilename st = [] \<or> extractedFilename trimmed \<noteq> Some (currentFilename st))))
        \<and> (isMainFileHeader trimmed \<longleftrightarrow>
             fileMatch 1 True trimmed \<noteq> None
             \<and> includesStr trimmed (NL # ''Total Slides:'')
             \<and> indexOf trimmed ''File:'' < indexOf trimmed ''Total Slides:''
             \<and> (case firstEvalIndex trimmed of
                  None \<Rightarrow> True
                | Some e \<Rightarrow> indexOf trimmed ''Total Slides:'' < e))
        \<and> (ps \<noteq> [] \<and> \<not> includesStr trimmed ''Total Slides:'' \<longrightarrow> \<not> startsSection st trimmed)
        \<and> (currentFilename st \<noteq> [] \<and> extractedFilename trimmed = Some (currentFilename st)
             \<longrightarrow> whichArm st trimmed = SameFile
                 \<and> processPart st p = st\<lparr>currentFile := currentFile st @ [NL, NL] @ trimmed\<rparr>)
        \<and> length (splitPPTFileSections (String text)) = countStarts initial (parts text))"
proof -
  let ?st = "foldl processPart initial ps"
  note rs = run_state [OF assms]
  have iff: "startsSection ?st (trim p) \<longleftrightarrow>
             ps = []
             \<or> (isMainFileHeader (trim p)
                 \<and> (currentFilename ?st = [] \<or> extractedFilename (trim p) \<noteq> Some (currentFilename ?st)))"
    using starts_iff [OF rs(1), of "trim p"] rs(2) by simp
  have hdr: "ps \<noteq> [] \<and> \<not> includesStr (trim p) ''Total Slides:'' \<longrightarrow> \<not> startsSection ?st (trim p)"
    using iff header_needs_total_slides [of "trim p"] by blast
  have same: "currentFilename ?st \<noteq> [] \<and> extractedFilename (trim p) = Some (currentFilename ?st)
             \<longrightarrow> whichArm ?st (trim p) = SameFile
                 \<and> processPart ?st p = ?st\<lparr>currentFile := currentFile ?st @ [NL, NL] @ trim p\<rparr>"
    using same_name_continues [of ?st "trim p"] by (auto simp: processPart_def Let_def)
  have pne: "parts text \<noteq> []" using assms by simp
  then have tne: "text \<noteq> []" by (auto simp: parts_def trim_def)
  have cnt: "length (splitPPTFileSections (String text)) = countStarts initial (parts text)"
    using sections_counted [OF pne] tne by simp
  show ?thesis
    unfolding Let_def
    using iff hdr same cnt by (simp add: isMainFileHeader_def Let_def)
qed

theorem block_starts_section_witness:
  "parts twoFiles = [headerA] @ headerA # [headerB, ''File: c.pptx'']
   \<and> \<not> startsSection (foldl processPart initial [headerA]) (trim headerA)
   \<and> whichArm (foldl processPart initial [headerA]) (trim headerA) = SameFile
   \<and> length (splitPPTFileSections (String twoFiles)) = 2"
proof -
  let ?st = "foldl processPart initial [headerA]"
  have h: "parts twoFiles = [headerA] @ headerA # [headerB, ''File: c.pptx'']" by code_simp
  have n: "currentFilename ?st = ''a.pptx''" by code_simp
  have e: "extractedFilename (trim headerA) = Some ''a.pptx''" by code_simp
  have c: "countStarts initial (parts twoFiles) = 2" by code_simp
  note t = block_starts_section [OF h, unfolded Let_def]
  from t have "startsSection ?st (trim headerA) \<longleftrightarrow>
      [headerA] = []
      \<or> (isMainFileHeader (trim headerA)
          \<and> (currentFilename ?st = [] \<or> extractedFilename (trim headerA) \<noteq> Some (currentFilename ?st)))"
    by blast
  then have s: "\<not> startsSection ?st (trim headerA)"
    unfolding n e by simp
  from t have "currentFilename ?st \<noteq> [] \<and> extractedFilename (trim headerA) = Some (currentFilename ?st)
      \<longrightarrow> whichArm ?st (trim headerA) = SameFile"
    by blast
  then have w: "whichArm ?st (trim headerA) = SameFile"
    unfolding n e by simp
  from t have "length (splitPPTFileSections (String twoFiles)) = countStarts initial (parts twoFiles)"
    by blast
  then have l: "length (splitPPTFileSections (String twoFiles)) = 2"
    unfolding c .
  from h s w l show ?thesis by blast
qed

text \<open>
  The claim as first stated lets only a header start a Section. A text whose
  only block has \<open>File:\<close> and no \<open>Total Slides:\<close> is not a header, and the
  block starts the one Section that is returned.
\<close>

theorem block_starts_section_counterexample:
  "parts ''File: c.pptx'' = [] @ ''File: c.pptx'' # []
   \<and> \<not> includesStr (trim ''File: c.pptx'') ''Total Slides:''
   \<and> \<not> isMainFileHeader (trim ''File: c.pptx'')
   \<and> startsSection (foldl processPart initial []) (trim ''File: c.pptx'')
   \<and> splitPPTFileSections (String ''File: c.pptx'') = [''File: c.pptx'']"
  by code_simp

section \<open>Properties of the score extractor\<close>

lemma record_score:
  "sectionRecord section = Some r \<Longrightarrow>
     score_percent r
       = (if markerValues section = [] then String ''-''
          else Number (js_div_length
                         (sumReduce (map (\<lambda>n. toDouble (of_nat n)) (markerValues section)))
                         (length (markerValues section))))"
  by (auto simp: sectionRecord_Some sectionScore_values)

lemma record_score_whole:
  assumes "sectionRecord section = Some r"
      and "markerValues section \<noteq> []" "sum_list (markerValues section) \<le> 2 ^ 53"
  shows "score_percent r = Number (toDouble (mean (map of_nat (markerValues section))))"
  using assms(1) sectionScore_whole [OF assms(2,3)] by (auto simp: sectionRecord_Some)

lemma hugeMarker_values: "markerValues hugeMarker = [10 ^ 309]"
proof -
  have a: "scoreMatch ''Content Quality Score:'' hugeMarker = Some (CHR ''1'' # replicate 309 (CHR ''0''))"
    by code_simp
  have b: "scoreMatch ''Structure Score:'' hugeMarker = None" by code_simp
  have c: "scoreMatch ''Alignment Score:'' hugeMarker = None" by code_simp
  show ?thesis
    unfolding markerValues_def a b c by (simp add: List.map_filter_simps digitsValue_one_zeros)
qed

lemma toDouble_huge: "toDouble (10 ^ 309) = PInf"
proof -
  have "pow2 1024 \<le> (10::rat) ^ 309" by (simp add: pow2_def)
  then show ?thesis by (rule toDouble_overflow)
qed

lemma hugeMarker_score: "sectionScore hugeMarker = Some PInf"
  unfolding sectionScore_values hugeMarker_values
  using toDouble_huge by (simp add: sumReduce_def)

lemma thirds_values: "markerValues thirdsText = [1, 1, 2]"
  by code_simp

lemma thirds_score: "sectionScore thirdsText = Some (Fin (6004799503160661 / 2 ^ 52))"
proof -
  have "sectionScore thirdsText = Some (toDouble (mean (map of_nat (markerValues thirdsText))))"
    by (rule sectionScore_whole) (simp_all add: thirds_values)
  moreover have "mean (map of_nat (markerValues thirdsText)) = 4 / 3"
    by (simp add: thirds_values mean_def)
  moreover have "toDouble (4 / 3) = Fin (6004799503160661 / 2 ^ 52)"
    by (simp add: eval_double)
  ultimately show ?thesis by simp
qed

text \<open>
  C5, as amended. The score extracted from a Section is computed from the
  integers of those of the three markers \<open>Content Quality Score: n/100\<close>,
  \<open>Structure Score: n/100\<close> and \<open>Alignment Score: n/100\<close> that the Section
  contains (one to three values): each is read as the nearest double, they are
  added from 0 and the sum is divided by their count, every step rounded to a
  double. When the integers add up to at most \<open>2^53\<close> that is the double
  nearest to their arithmetic mean. When the Section contains no marker there
  is no score, and the record carries the unscored marker \<open>-\<close>, never a
  default of 0 or 100. The raw text of the example scenario splits into one
  Section, and the extractor yields one record, with the score 70 (the mean of
  80 and 60) and the reasoning \<open>Good structure\<close>.
\<close>

theorem section_score_is_mean:
  "(let vals = markerValues section;
        computed = js_div_length (sumReduce (map (\<lambda>n. toDouble (of_nat n)) vals)) (length vals) in
      sectionScore section = (if vals = [] then None else Some computed)
    \<and> (vals \<noteq> [] \<and> sum_list vals \<le> 2 ^ 53 \<longrightarrow>
          computed = toDouble (mean (map of_nat vals))
        \<and> (\<exists>q\<ge>0. computed = Fin q))
    \<and> length vals \<le> 3
    \<and> (\<forall>r. sectionRecord section = Some r \<longrightarrow>
          score_percent r = (if vals = [] then String ''-'' else Number computed)))
   \<and> splitPPTFileSections (String exampleText) = [exampleText]
   \<and> extractPPTScores (String exampleText)
       = [\<lparr>name = Some ''quiz1.pptx'', score_percent = Number (Fin 70),
           reasoning = Some ''Good structure'', details = []\<rparr>]"
proof -
  let ?vals = "markerValues section"
  let ?computed = "js_div_length (sumReduce (map (\<lambda>n. toDouble (of_nat n)) ?vals)) (length ?vals)"
  have whole: "?computed = toDouble (mean (map of_nat ?vals))
               \<and> (\<exists>q\<ge>0. ?computed = Fin q)"
    if "?vals \<noteq> [] \<and> sum_list ?vals \<le> 2 ^ 53"
  proof -
    from that have v: "?vals \<noteq> []" "sum_list ?vals \<le> 2 ^ 53" by simp_all
    have c: "?computed = toDouble (mean (map of_nat ?vals))"
      using average_whole [OF v] by (simp add: map_toDouble_whole [OF v(2)])
    from toDouble_finite [OF mean_whole_bounds [OF v]] c show ?thesis by simp
  qed
  show ?thesis
    unfolding Let_def
    apply (intro conjI allI impI)
    subgoal by (rule sectionScore_values)
    subgoal using whole by blast
    subgoal using whole by blast
    subgoal by (rule markerValues_length)
    subgoal for r by (rule record_score)
    subgoal by (rule ex_split)
    subgoal by (rule ex_extract)
    done
qed

theorem section_score_is_mean_witness:
  "markerValues exampleText = [80, 60]
   \<and> sum_list (markerValues exampleText) \<le> 2 ^ 53
   \<and> mean (map of_nat (markerValues exampleText)) = 70
   \<and> sectionScore exampleText = Some (Fin 70)
   \<and> markerValues ''Structure: none'' = []
   \<and> sectionScore ''Structure: none'' = None"
proof -
  have n: "markerValues ''Structure: none'' = []" by code_simp
  have s: "sum_list (markerValues exampleText) \<le> 2 ^ 53" by (simp add: ex_values)
  have ne: "markerValues exampleText \<noteq> []" by (simp add: ex_values)
  note t = section_score_is_mean [of exampleText, unfolded Let_def]
  from t ne s have "sectionScore exampleText
      = Some (toDouble (mean (map of_nat (markerValues exampleText))))"
    by simp
  then have a: "sectionScore exampleText = Some (Fin 70)" by (simp only: ex_mean toDouble_70)
  from section_score_is_mean [of "''Structure: none''", unfolded Let_def]
  have b: "sectionScore ''Structure: none'' = None" unfolding n by simp
  from ex_values s ex_mean a n b show ?thesis by blast
qed

text \<open>
  The extracted score is not always the arithmetic mean of the marker values. A
  marker whose integer is \<open>10^309\<close> gives the score Infinity; the markers 1, 1 and
  2, whose mean is 4/3, give the double nearest to it.
\<close>

theorem section_score_is_mean_counterexample:
  "markerValues hugeMarker = [10 ^ 309]
   \<and> mean (map of_nat (markerValues hugeMarker)) = 10 ^ 309
   \<and> sectionScore hugeMarker = Some PInf
   \<and> markerValues thirdsText = [1, 1, 2]
   \<and> mean (map of_nat (markerValues thirdsText)) = 4 / 3
   \<and> sectionScore thirdsText = Some (Fin (6004799503160661 / 2 ^ 52))"
proof -
  have a: "mean (map of_nat (markerValues hugeMarker)) = 10 ^ 309"
    by (simp add: hugeMarker_values mean_def)
  have b: "mean (map of_nat (markerValues thirdsText)) = 4 / 3"
    by (simp add: thirds_values mean_def)
  from hugeMarker_values a hugeMarker_score thirds_values b thirds_score show ?thesis by blast
qed

text \<open>
  C7. The records of \<open>extractPPTScores\<close> are the records of the Sections of
  the text. A Section gives a record only if it has a file name and a score or
  a non-empty feedback; a Section with neither score nor feedback gives none,
  and nothing is raised. In a record, the reasoning is the literal
  \<open>Evaluation completed\<close> when the Section has no \<open>Feedback:\<close> text, and the
  name is the literal \<open>Unknown\<close> when the Section has no \<open>File:\<close> marker.
\<close>

theorem section_contributes:
  "(r \<in> set (extractPPTScores v) \<longleftrightarrow>
      (\<exists>section \<in> set (splitPPTFileSections v). sectionRecord section = Some r))
   \<and> (sectionRecord section \<noteq> None \<longleftrightarrow>
        sectionFilename section \<noteq> []
        \<and> (sectionScore section \<noteq> None \<or> sectionReasoning section \<noteq> []))
   \<and> (sectionScore section = None \<and> sectionReasoning section = [] \<longrightarrow> sectionRecord section = None)
   \<and> (\<forall>r'. sectionRecord section = Some r' \<longrightarrow>
          (feedbackMatches section = [] \<longrightarrow> reasoning r' = Some ''Evaluation completed'')
        \<and> (\<not> includesStr section ''Feedback:'' \<longrightarrow> reasoning r' = Some ''Evaluation completed'')
        \<and> (fileMatch 0 True section = None \<longrightarrow> name r' = Some ''Unknown'')
        \<and> (\<not> includesStr section ''File:'' \<longrightarrow> name r' = Some ''Unknown''))"
proof -
  have a: "sectionRecord section \<noteq> None \<longleftrightarrow>
        sectionFilename section \<noteq> []
        \<and> (sectionScore section \<noteq> None \<or> sectionReasoning section \<noteq> [])"
    by (simp add: sectionRecord_def Let_def)
  have b: "sectionRecord section = Some r' \<Longrightarrow>
          (feedbackMatches section = [] \<longrightarrow> reasoning r' = Some ''Evaluation completed'')
        \<and> (\<not> includesStr section ''Feedback:'' \<longrightarrow> reasoning r' = Some ''Evaluation completed'')
        \<and> (fileMatch 0 True section = None \<longrightarrow> name r' = Some ''Unknown'')
        \<and> (\<not> includesStr section ''File:'' \<longrightarrow> name r' = Some ''Unknown'')" for r'
    using feedbackMatches_absent [of "section"] fileMatch_absent [of "section" 0 True]
    by (auto simp: sectionRecord_Some sectionReasoning_def sectionFilename_def)
  show ?thesis
    using a b extractPPTScores_records [of r v] by blast
qed


lemma toDouble_60: "toDouble 60 = Fin 60"
  using toDouble_of_nat [of 60] by simp

theorem section_contributes_witness:
  "sectionRecord ''Structure Score: 60/100''
     = Some \<lparr>name = Some ''Unknown'', score_percent = Number (Fin 60),
             reasoning = Some ''Evaluation completed'', details = []\<rparr>
   \<and> sectionRecord ''Total Slides: 10'' = None
   \<and> extractPPTScores (String ''Total Slides: 10'') = []"
proof -
  let ?s = "''Structure Score: 60/100''" and ?t = "''Total Slides: 10''"
  have v: "markerValues ?s = [60]" by code_simp
  have f: "\<not> includesStr ?s ''Feedback:''" "\<not> includesStr ?s ''File:''" by code_simp+
  have "sectionScore ?s = Some (toDouble (mean (map of_nat (markerValues ?s))))"
    by (rule sectionScore_whole) (simp_all add: v)
  moreover have "mean (map of_nat (markerValues ?s)) = 60" by (simp add: v mean_def)
  ultimately have sc: "sectionScore ?s = Some (Fin 60)" by (simp only: toDouble_60)
  have t: "sectionScore ?t = None" "sectionReasoning ?t = []" by code_simp+
  have sp: "splitPPTFileSections (String ?t) = [?t]" by code_simp
  note A = section_contributes [of _ _ ?s] and B = section_contributes [of _ "String ?t" ?t]
  from A sc have "sectionRecord ?s \<noteq> None" using f(2) sectionFilename_absent [of ?s] by simp
  then obtain r where r: "sectionRecord ?s = Some r" by blast
  with A f have "reasoning r = Some ''Evaluation completed''" "name r = Some ''Unknown''"
    by blast+
  moreover from r sc have "score_percent r = Number (Fin 60)" "details r = []"
    by (auto simp: sectionRecord_Some)
  ultimately have one: "sectionRecord ?s = Some \<lparr>name = Some ''Unknown'', score_percent = Number (Fin 60),
             reasoning = Some ''Evaluation completed'', details = []\<rparr>"
    using r by (cases r) simp
  from B t have two: "sectionRecord ?t = None" by blast
  have "\<And>r. r \<notin> set (extractPPTScores (String ?t))"
    using B two unfolding sp by simp
  then have three: "extractPPTScores (String ?t) = []"
    by (metis list.set_intros(1) neq_Nil_conv)
  from one two three show ?thesis by blast
qed


lemma overflow_split: "splitPPTFileSections (String overflowText) = [overflowText]"
  by code_simp

lemma overflow_nonempty: "overflowText \<noteq> []"
  by code_simp

lemma overflow_values: "markerValues overflowText = [10 ^ 400]"
proof -
  have a: "scoreMatch ''Content Quality Score:'' overflowText = None" by code_simp
  have b: "scoreMatch ''Structure Score:'' overflowText = None" by code_simp
  have c: "scoreMatch ''Alignment Score:'' overflowText = Some (CHR ''1'' # replicate 400 (CHR ''0''))"
    by code_simp
  show ?thesis
    unfolding markerValues_def a b c by (simp add: List.map_filter_simps digitsValue_one_zeros)
qed

lemma overflow_score: "sectionScore overflowText = Some PInf"
proof -
  have "pow2 1024 \<le> (10::rat) ^ 400" by (simp add: pow2_def)
  then have "toDouble (10 ^ 400) = PInf" by (rule toDouble_overflow)
  then show ?thesis
    unfolding sectionScore_values overflow_values by (simp add: sumReduce_def)
qed

lemma overflow_record:
  "sectionRecord overflowText
     = Some \<lparr>name = Some ''big.pptx'', score_percent = Number PInf,
             reasoning = Some ''Evaluation completed'', details = []\<rparr>"
proof -
  have f: "sectionFilename overflowText = ''big.pptx''" by code_simp
  have r: "sectionReasoning overflowText = []" by code_simp
  show ?thesis by (simp add: sectionRecord_def Let_def overflow_score f r)
qed

text \<open>
  C9, as amended. Every record of \<open>extractPPTScores\<close> has a non-empty name, a
  non-empty reasoning (the joined feedback texts of its Section, or the literal
  \<open>Evaluation completed\<close>), and a score that is either the string \<open>-\<close>, when
  its Section has no marker, or the number computed from the marker values of
  its Section: a finite number from 0 up or Infinity, never NaN, never null,
  never 0 by default. The number is finite, the double nearest to the mean of
  the marker values, when they add up to at most \<open>2^53\<close>.
\<close>

theorem extracted_record_invariant:
  assumes "r \<in> set (extractPPTScores v)"
  shows "(\<exists>n. name r = Some n \<and> n \<noteq> [])
       \<and> (\<exists>t. reasoning r = Some t \<and> t \<noteq> [])
       \<and> (score_percent r = String ''-''
            \<or> (\<exists>q. score_percent r = Number (Fin q) \<and> 0 \<le> q)
            \<or> score_percent r = Number PInf)
       \<and> (\<exists>section \<in> set (splitPPTFileSections v).
             name r = Some (sectionFilename section)
           \<and> reasoning r = Some (if sectionReasoning section = [] then ''Evaluation completed''
                                  else sectionReasoning section)
           \<and> score_percent r
               = (if markerValues section = [] then String ''-''
                  else Number (js_div_length
                                 (sumReduce (map (\<lambda>n. toDouble (of_nat n)) (markerValues section)))
                                 (length (markerValues section))))
           \<and> (markerValues section \<noteq> [] \<and> sum_list (markerValues section) \<le> 2 ^ 53 \<longrightarrow>
                 score_percent r = Number (toDouble (mean (map of_nat (markerValues section))))
               \<and> (\<exists>q\<ge>0. score_percent r = Number (Fin q))))"
proof -
  from assms obtain sec where
    s: "sec \<in> set (splitPPTFileSections v)" and r: "sectionRecord sec = Some r"
    using extractPPTScores_records by blast
  from r have n: "name r = Some (sectionFilename sec)" "sectionFilename sec \<noteq> []"
    and t: "reasoning r = Some (if sectionReasoning sec = [] then ''Evaluation completed''
                                 else sectionReasoning sec)"
    by (auto simp: sectionRecord_Some)
  note p = record_score [OF r]
  have sc: "score_percent r = String ''-''
            \<or> (\<exists>q. score_percent r = Number (Fin q) \<and> 0 \<le> q)
            \<or> score_percent r = Number PInf"
  proof (cases "markerValues sec = []")
    case True
    with p show ?thesis by simp
  next
    case False
    from notNegative_score [OF False] p False show ?thesis
      by (auto simp: notNegative_cases)
  qed
  have w: "score_percent r = Number (toDouble (mean (map of_nat (markerValues sec))))
           \<and> (\<exists>q\<ge>0. score_percent r = Number (Fin q))"
    if "markerValues sec \<noteq> [] \<and> sum_list (markerValues sec) \<le> 2 ^ 53"
  proof -
    from that have v: "markerValues sec \<noteq> []" "sum_list (markerValues sec) \<le> 2 ^ 53"
      by simp_all
    from toDouble_finite [OF mean_whole_bounds [OF v]] record_score_whole [OF r v]
    show ?thesis by auto
  qed
  have "\<exists>t. reasoning r = Some t \<and> t \<noteq> []" using t by auto
  moreover have "\<exists>n. name r = Some n \<and> n \<noteq> []" using n by auto
  ultimately show ?thesis using s n(1) t p sc w by blast
qed

theorem extracted_record_invariant_witness:
  "\<lparr>name = Some ''quiz1.pptx'', score_percent = Number (Fin 70),
     reasoning = Some ''Good structure'', details = []\<rparr> \<in> set (extractPPTScores (String exampleText))
   \<and> sectionFilename exampleText = ''quiz1.pptx''
   \<and> sectionReasoning exampleText = ''Good structure''
   \<and> markerValues exampleText = [80, 60]
   \<and> toDouble (mean (map of_nat (markerValues exampleText))) = Fin 70"
proof -
  let ?r = "\<lparr>name = Some ''quiz1.pptx'', score_percent = Number (Fin 70),
     reasoning = Some ''Good structure'', details = []\<rparr>"
  have m: "?r \<in> set (extractPPTScores (String exampleText))"
    unfolding ex_extract by simp
  have v: "markerValues exampleText \<noteq> [] \<and> sum_list (markerValues exampleText) \<le> 2 ^ 53"
    by (simp add: ex_values)
  from extracted_record_invariant [OF m]
  have "\<exists>section \<in> set [exampleText].
          name ?r = Some (sectionFilename section)
        \<and> reasoning ?r = Some (if sectionReasoning section = [] then ''Evaluation completed''
                                else sectionReasoning section)
        \<and> (markerValues section \<noteq> [] \<and> sum_list (markerValues section) \<le> 2 ^ 53 \<longrightarrow>
              score_percent ?r = Number (toDouble (mean (map of_nat (markerValues section)))))"
    unfolding ex_split by blast
  with v have "sectionFilename exampleText = ''quiz1.pptx''"
    "sectionReasoning exampleText = ''Good structure''"
    "toDouble (mean (map of_nat (markerValues exampleText))) = Fin 70"
    by (auto split: if_splits)
  with m ex_values show ?thesis by blast
qed

text \<open>
  A record whose score is not a finite number: a Section with a file name and
  a marker whose integer is \<open>10^400\<close> gives the score Infinity.
\<close>

theorem extracted_record_invariant_counterexample:
  "extractPPTScores (String overflowText)
     = [\<lparr>name = Some ''big.pptx'', score_percent = Number PInf,
         reasoning = Some ''Evaluation completed'', details = []\<rparr>]
   \<and> \<not> isFinite PInf"
  using overflow_nonempty
  by (simp add: overflow_split overflow_record List.map_filter_simps del: splitPPTFileSections.simps)


end
